theory Spec2Isabelle
  imports Main
begin

section \<open>The orchestration notebook and its world\<close>

text \<open>
  The notebook \<^verbatim>\<open>query_optimization_orchestration.py\<close> runs SQL scripts and
  commands against a warehouse session, retrying each with exponential backoff, and
  folds the outcomes into a pipeline summary and a report.

  The warehouse, the files and the clock are outside the program. They are modelled
  by an environment that answers each unit of work, and by a world that is passed
  through every function and records what the program did.
\<close>

subsection \<open>Status strings\<close>

text \<open>
  The source writes every status as a string: \<^verbatim>\<open>"PENDING"\<close>, \<^verbatim>\<open>"SUCCESS"\<close>,
  \<^verbatim>\<open>"FAILED"\<close> for an outcome, \<^verbatim>\<open>"PARTIAL_SUCCESS"\<close> for a pipeline,
  \<^verbatim>\<open>"WARNING"\<close> for a report and \<^verbatim>\<open>"UNKNOWN"\<close> as the default of a missing key.
  They are compared by equality only, so one datatype holds them all.
\<close>

datatype status = PENDING | SUCCESS | PARTIAL_SUCCESS | FAILED | WARNING | UNKNOWN

text \<open>The severity of a notification: \<^verbatim>\<open>"INFO"\<close>, \<^verbatim>\<open>"WARNING"\<close>, \<^verbatim>\<open>"ERROR"\<close>.\<close>

datatype severity = SEV_INFO | SEV_WARNING | SEV_ERROR

subsection \<open>Units of work and the warehouse's answers\<close>

text \<open>
  A unit of work is what the source submits in one go: a script file that
  is opened, read and run (\<^verbatim>\<open>execute_sql_script\<close>), a SQL text that is run as it
  is (\<^verbatim>\<open>spark.sql(sql_command)\<close>), or the metrics of the report, made a DataFrame and
  displayed (\<^verbatim>\<open>display(spark.createDataFrame(...))\<close>).

  The answer to one unit of work is an exception with its message \<^verbatim>\<open>str(e)\<close>, raised
  by \<^verbatim>\<open>open\<close>/\<^verbatim>\<open>read\<close> (\<open>ReadFailed\<close>) or by \<^verbatim>\<open>spark.sql\<close>/\<^verbatim>\<open>collect\<close>
  (\<open>Raised\<close>), or the number of rows that \<^verbatim>\<open>collect()\<close> returned (\<open>Done\<close>).
  \<^verbatim>\<open>spark.sql\<close> returns a DataFrame, which Python takes for true, so the guard
  \<^verbatim>\<open>if sql_result:\<close> of the source always passes and the rows are always collected.
\<close>

datatype work = ScriptFile string | InlineSql string | ShowMetrics

datatype response = ReadFailed string | Raised string | Done nat

fun error_of :: "response \<Rightarrow> string option" where
  "error_of (ReadFailed msg) = Some msg"
| "error_of (Raised msg) = Some msg"
| "error_of (Done n) = None"

fun rows_of :: "response \<Rightarrow> nat" where
  "rows_of (Done n) = n"
| "rows_of _ = 0"

text \<open>
  What the program does to the outside, in order: a unit of work submitted together
  with its answer, a call of \<^verbatim>\<open>time.sleep\<close> with its length in seconds, and a
  notification with its severity (the text of log lines and notifications is not
  modelled).
\<close>

datatype event = Exec work response | Sleep nat | Notify severity

text \<open>
  The world: \<open>tick\<close> counts the units of work submitted so far, \<open>clock\<close> is the
  reading of \<^verbatim>\<open>datetime.now()\<close> in seconds, \<open>trace\<close> lists the events so far.
  Elapsed time is no subject of this development: the clock moves only when the
  program sleeps.
\<close>

record world =
  tick :: nat
  clock :: int
  trace :: "event list"

text \<open>
  The environment: \<open>respond t w\<close> is the answer to the unit of work \<open>w\<close> when it
  is the \<open>t\<close>-th one submitted (so the same statement may fail now and succeed later),
  and \<open>isoformat\<close> renders a clock reading as \<^verbatim>\<open>datetime.isoformat()\<close> does.
\<close>

record env =
  respond :: "nat \<Rightarrow> work \<Rightarrow> response"
  isoformat :: "int \<Rightarrow> string"

definition perform :: "env \<Rightarrow> work \<Rightarrow> world \<Rightarrow> response \<times> world" where
  "perform e wk w =
     (let r = respond e (tick w) wk
      in (r, w\<lparr>tick := Suc (tick w), trace := trace w @ [Exec wk r]\<rparr>))"

definition sleep :: "nat \<Rightarrow> world \<Rightarrow> world" where
  "sleep d w = w\<lparr>clock := clock w + int d, trace := trace w @ [Sleep d]\<rparr>"

definition now :: "world \<Rightarrow> int" where
  "now w = clock w"

text \<open>
  \<^verbatim>\<open>send_notification(message, severity, details)\<close> builds a dictionary and writes one
  log line at the level of the severity; nothing is delivered.
\<close>

definition send_notification :: "severity \<Rightarrow> world \<Rightarrow> world" where
  "send_notification sev w = w\<lparr>trace := trace w @ [Notify sev]\<rparr>"

subsection \<open>Configuration\<close>

text \<open>
  \<^verbatim>\<open>CONFIG\<close> is loaded once; the module then reads \<^verbatim>\<open>CATALOG\<close>, \<^verbatim>\<open>SCHEMA\<close>,
  \<^verbatim>\<open>MAX_RETRY_ATTEMPTS\<close>, \<^verbatim>\<open>RETRY_DELAY_SECONDS\<close> and
  \<^verbatim>\<open>INCREMENTAL_WINDOW_HOURS\<close> from it. \<open>config_keys\<close> are the top-level keys of
  the document, and \<open>system_tables_required\<close> is
  \<^verbatim>\<open>CONFIG.get("system_tables", {}).get("required_tables")\<close>, absent or a list.
  The number of retries is any integer. The delay is here a length of time in whole
  seconds, a natural number, and the required tables are absent or a list: the
  functions that read this record follow the runs in which every call of
  \<^verbatim>\<open>time.sleep\<close> returns. A delay that \<^verbatim>\<open>time.sleep\<close> rejects and a
  \<^verbatim>\<open>system_tables\<close> section that is null make the program raise; the section on
  exceptions below takes the configuration as it is loaded and follows those runs too.
\<close>

record config =
  config_keys :: "string list"
  CATALOG :: string
  SCHEMA :: string
  MAX_RETRY_ATTEMPTS :: int
  RETRY_DELAY_SECONDS :: nat
  INCREMENTAL_WINDOW_HOURS :: int
  system_tables_required :: "string list option"

section \<open>Utility functions\<close>

subsection \<open>The executor\<close>

text \<open>
  The dictionary that \<^verbatim>\<open>execute_sql_script\<close> and \<^verbatim>\<open>execute_sql_command\<close> return.
  The first key is \<^verbatim>\<open>"script"\<close> in the one and \<^verbatim>\<open>"command"\<close> in the other.
\<close>

datatype subject = Script string | Command string

record outcome =
  subject :: subject
  description :: string
  status :: status
  start_time :: int
  end_time :: "int option"
  execution_time_seconds :: int
  attempt_count :: nat
  error_message :: "string option"
  row_count :: nat

text \<open>
  The loop \<^verbatim>\<open>for attempt in range(max_retries)\<close>. The two executors hold the same
  loop, statement for statement, around different units of work, so it is written
  once, from the value \<open>attempt\<close> on. The \<^verbatim>\<open>try\<close> block covers the whole unit of
  work and \<^verbatim>\<open>except Exception\<close> takes every error of it, so an attempt either
  succeeds and returns, or fails and, unless it was the last one, sleeps
  \<^verbatim>\<open>RETRY_DELAY_SECONDS * (2 ** attempt)\<close> seconds. When the range is used up the
  function returns \<open>result\<close> as it stands (the last line of the source).
  The call of \<^verbatim>\<open>time.sleep\<close> stands in the \<^verbatim>\<open>except\<close> branch, outside the
  \<^verbatim>\<open>try\<close> block. Here it returns, as it does for a delay that is a natural number
  within its range; \<open>retry_loop_exn\<close> below is the loop with the exception of a sleep
  that does not return.
\<close>

function retry_loop ::
  "env \<Rightarrow> config \<Rightarrow> work \<Rightarrow> int \<Rightarrow> nat \<Rightarrow> outcome \<Rightarrow> world \<Rightarrow> outcome \<times> world"
where
  "retry_loop e cfg wk max_retries attempt result w =
     (if int attempt < max_retries then
        (let result1 = result\<lparr>attempt_count := attempt + 1\<rparr>;
             (r, w1) = perform e wk w
         in case error_of r of
              None \<Rightarrow>
                (let result2 = result1\<lparr>row_count := rows_of r\<rparr>;
                     result3 = result2\<lparr>status := SUCCESS\<rparr>;
                     result4 = result3\<lparr>end_time := Some (now w1)\<rparr>
                 in (result4\<lparr>execution_time_seconds := now w1 - start_time result4\<rparr>, w1))
            | Some error_msg \<Rightarrow>
                (let result2 = result1\<lparr>error_message := Some error_msg\<rparr>
                 in if int attempt = max_retries - 1 then
                      (let result3 = result2\<lparr>status := FAILED\<rparr>;
                           result4 = result3\<lparr>end_time := Some (now w1)\<rparr>
                       in (result4\<lparr>execution_time_seconds := now w1 - start_time result4\<rparr>, w1))
                    else
                      (let wait_time = RETRY_DELAY_SECONDS cfg * (2 ^ attempt)
                       in retry_loop e cfg wk max_retries (attempt + 1) result2
                            (sleep wait_time w1))))
      else (result, w))"
  by pat_completeness auto
termination
  by (relation "measure (\<lambda>(e, cfg, wk, max_retries, attempt, result, w).
                  nat (max_retries - int attempt))") auto

text \<open>\<^verbatim>\<open>if max_retries is None: max_retries = MAX_RETRY_ATTEMPTS\<close>\<close>

definition retries_or_default :: "config \<Rightarrow> int option \<Rightarrow> int" where
  "retries_or_default cfg max_retries =
     (case max_retries of None \<Rightarrow> MAX_RETRY_ATTEMPTS cfg | Some n \<Rightarrow> n)"

definition execute_sql_script ::
  "env \<Rightarrow> config \<Rightarrow> string \<Rightarrow> string \<Rightarrow> int option \<Rightarrow> world \<Rightarrow> outcome \<times> world"
where
  "execute_sql_script e cfg script_path descr max_retries w =
     (let result = \<lparr>subject = Script script_path, description = descr,
                     status = PENDING, start_time = now w, end_time = None,
                     execution_time_seconds = 0, attempt_count = 0,
                     error_message = None, row_count = 0\<rparr>
      in retry_loop e cfg (ScriptFile script_path)
           (retries_or_default cfg max_retries) 0 result w)"

text \<open>
  The \<^verbatim>\<open>"command"\<close> entry is
  \<^verbatim>\<open>sql_command[:100] + "..." if len(sql_command) > 100 else sql_command\<close>;
  the statement submitted is \<^verbatim>\<open>sql_command\<close> itself.
\<close>

definition display_command :: "string \<Rightarrow> string" where
  "display_command sql_command =
     (if length sql_command > 100 then take 100 sql_command @ ''...'' else sql_command)"

definition execute_sql_command ::
  "env \<Rightarrow> config \<Rightarrow> string \<Rightarrow> string \<Rightarrow> int option \<Rightarrow> world \<Rightarrow> outcome \<times> world"
where
  "execute_sql_command e cfg sql_command descr max_retries w =
     (let result = \<lparr>subject = Command (display_command sql_command), description = descr,
                     status = PENDING, start_time = now w, end_time = None,
                     execution_time_seconds = 0, attempt_count = 0,
                     error_message = None, row_count = 0\<rparr>
      in retry_loop e cfg (InlineSql sql_command)
           (retries_or_default cfg max_retries) 0 result w)"

subsection \<open>Access to the system tables\<close>

definition default_required_tables :: "string list" where
  "default_required_tables =
     [''system.query.history'', ''system.billing.usage'', ''system.billing.list_prices'',
      ''system.compute.clusters'', ''system.compute.warehouses'']"

definition required_tables :: "config \<Rightarrow> string list" where
  "required_tables cfg =
     (case system_tables_required cfg of None \<Rightarrow> default_required_tables | Some ts \<Rightarrow> ts)"

record access_result =
  table :: string
  access_status :: status
  accessible :: bool
  access_error :: "string option"

definition access_query :: "string \<Rightarrow> string" where
  "access_query tbl = ''SELECT COUNT(*) FROM '' @ tbl @ '' LIMIT 1''"

text \<open>
  The dictionary appended for one table: the \<^verbatim>\<open>try\<close> branch when the query and its
  \<^verbatim>\<open>collect()\<close> return, the \<^verbatim>\<open>except\<close> branch with \<^verbatim>\<open>str(e)\<close> otherwise.
\<close>

definition access_outcome :: "string \<Rightarrow> response \<Rightarrow> access_result" where
  "access_outcome tbl r =
     (case error_of r of
        None \<Rightarrow> \<lparr>table = tbl, access_status = SUCCESS, accessible = True, access_error = None\<rparr>
      | Some msg \<Rightarrow>
          \<lparr>table = tbl, access_status = FAILED, accessible = False, access_error = Some msg\<rparr>)"

text \<open>The loop \<^verbatim>\<open>for table in required_tables\<close>, appending to \<^verbatim>\<open>access_results\<close>.\<close>

fun check_tables ::
  "env \<Rightarrow> string list \<Rightarrow> access_result list \<Rightarrow> world \<Rightarrow> access_result list \<times> world"
where
  "check_tables e [] access_results w = (access_results, w)"
| "check_tables e (tbl # rest) access_results w =
     (let (r, w1) = perform e (InlineSql (access_query tbl)) w
      in check_tables e rest (access_results @ [access_outcome tbl r]) w1)"

definition check_system_table_access ::
  "env \<Rightarrow> config \<Rightarrow> world \<Rightarrow> access_result list \<times> world"
where
  "check_system_table_access e cfg w = check_tables e (required_tables cfg) [] w"

subsection \<open>Health of a table\<close>

text \<open>
  The contents of rows are not modelled, so of the dictionary that
  \<^verbatim>\<open>check_table_health\<close> returns the statistics are left out. The statistics are read
  from \<^verbatim>\<open>collect()[0]\<close>, which raises \<^verbatim>\<open>IndexError\<close> on an empty result, inside the
  \<^verbatim>\<open>try\<close> block.
\<close>

record health_check =
  table_name :: string
  full_table_name :: string
  health_status :: status
  table_exists :: bool
  health_error :: "string option"

definition newline :: string where
  "newline = [CHR 0x0A]"

definition stats_query :: "string \<Rightarrow> string" where
  "stats_query full =
     concat [newline,
       ''            SELECT '', newline,
       ''                COUNT(*) as row_count,'', newline,
       ''                COUNT(DISTINCT query_date) as unique_dates,'', newline,
       ''                MIN(query_date) as earliest_date,'', newline,
       ''                MAX(query_date) as latest_date,'', newline,
       ''                MAX(created_at) as latest_created_at'', newline,
       ''            FROM '' @ full, newline,
       ''            WHERE query_date >= CURRENT_DATE - INTERVAL 7 DAY'', newline,
       ''        '']"

definition health_failed :: "string \<Rightarrow> string \<Rightarrow> string \<Rightarrow> health_check" where
  "health_failed tname full msg =
     \<lparr>table_name = tname, full_table_name = full, health_status = FAILED,
      table_exists = False, health_error = Some msg\<rparr>"

definition check_table_health ::
  "env \<Rightarrow> config \<Rightarrow> string \<Rightarrow> string option \<Rightarrow> world \<Rightarrow> health_check \<times> world"
where
  "check_table_health e cfg tname schema_name w =
     (let schema = (case schema_name of None \<Rightarrow> SCHEMA cfg | Some s \<Rightarrow> s);
          full = CATALOG cfg @ ''.'' @ schema @ ''.'' @ tname;
          (r1, w1) = perform e (InlineSql (''DESCRIBE TABLE '' @ full)) w
      in case error_of r1 of
           Some msg \<Rightarrow> (health_failed tname full msg, w1)
         | None \<Rightarrow>
             (let (r2, w2) = perform e (InlineSql (stats_query full)) w1
              in case error_of r2 of
                   Some msg \<Rightarrow> (health_failed tname full msg, w2)
                 | None \<Rightarrow>
                     if rows_of r2 = 0
                     then (health_failed tname full ''list index out of range'', w2)
                     else (\<lparr>table_name = tname, full_table_name = full,
                             health_status = SUCCESS, table_exists = True,
                             health_error = None\<rparr>, w2)))"

section \<open>Pre-execution validation\<close>

text \<open>
  The parts of \<^verbatim>\<open>validate_prerequisites\<close> and of the statements after it; the
  function itself stands with the exceptions below, since its first call can raise.
\<close>

text \<open>Python's \<^verbatim>\<open>sep.join(xs)\<close>.\<close>

fun join :: "string \<Rightarrow> string list \<Rightarrow> string" where
  "join sep [] = []"
| "join sep [x] = x"
| "join sep (x # y # ys) = x @ sep @ join sep (y # ys)"

text \<open>
  The second check: \<^verbatim>\<open>USE CATALOG\<close>, then \<^verbatim>\<open>SHOW SCHEMAS LIKE\<close> with its
  \<^verbatim>\<open>collect()\<close>, in one \<^verbatim>\<open>try\<close> block; the result is the list of messages the
  \<^verbatim>\<open>except\<close> branch appends.
\<close>

definition check_schema :: "env \<Rightarrow> config \<Rightarrow> world \<Rightarrow> string list \<times> world" where
  "check_schema e cfg w =
     (let (r1, w1) = perform e (InlineSql (''USE CATALOG '' @ CATALOG cfg)) w;
          complaint = (\<lambda>msg. ''Schema '' @ CATALOG cfg @ ''.'' @ SCHEMA cfg @
                              '' not accessible: '' @ msg)
      in case error_of r1 of
           Some msg \<Rightarrow> ([complaint msg], w1)
         | None \<Rightarrow>
             (let (r2, w2) = perform e (InlineSql (''SHOW SCHEMAS LIKE '' @ [CHR 0x27] @
                                                   SCHEMA cfg @ [CHR 0x27])) w1
              in case error_of r2 of
                   Some msg \<Rightarrow> ([complaint msg], w2)
                 | None \<Rightarrow> ([], w2)))"

text \<open>The fourth check: \<^verbatim>\<open>spark.sql("SELECT 1").collect()\<close>.\<close>

definition check_resources :: "env \<Rightarrow> world \<Rightarrow> string list \<times> world" where
  "check_resources e w =
     (let (r, w1) = perform e (InlineSql ''SELECT 1'') w
      in case error_of r of
           Some msg \<Rightarrow> ([''Cluster resource issue: '' @ msg], w1)
         | None \<Rightarrow> ([], w1))"

definition required_config_keys :: "string list" where
  "required_config_keys = [''schemas'', ''etl'', ''performance_thresholds'']"

text \<open>An f-string writes an absent error as \<^verbatim>\<open>None\<close>.\<close>

definition str_of :: "string option \<Rightarrow> string" where
  "str_of x = (case x of None \<Rightarrow> ''None'' | Some s \<Rightarrow> s)"

section \<open>The pipeline\<close>

record step =
  script :: string
  step_description :: string
  required :: bool

definition pipeline_steps :: "step list" where
  "pipeline_steps =
     [\<lparr>script = ''../sql/01_schema_setup.sql'',
       step_description = ''Setup schema and permissions'', required = True\<rparr>,
      \<lparr>script = ''../sql/02_core_tables.sql'',
       step_description = ''Create core Delta tables'', required = True\<rparr>,
      \<lparr>script = ''../sql/03_materialized_views.sql'',
       step_description = ''Create materialized views for dashboards'', required = True\<rparr>,
      \<lparr>script = ''../sql/04_regular_views.sql'',
       step_description = ''Create real-time analysis views'', required = True\<rparr>]"

text \<open>
  The dictionary that \<^verbatim>\<open>execute_pipeline\<close> returns. The early return has the key
  \<^verbatim>\<open>"error"\<close> and no \<^verbatim>\<open>"steps_failed"\<close>; the return at the end has
  \<^verbatim>\<open>"steps_failed"\<close> and no \<^verbatim>\<open>"error"\<close>.
\<close>

record pipeline_summary =
  summary_status :: status
  summary_start_time :: int
  summary_end_time :: int
  total_execution_time :: int
  steps_completed :: nat
  steps_failed :: "nat option"
  steps_total :: nat
  results :: "outcome list"
  summary_error :: "string option"

text \<open>
  The loop \<^verbatim>\<open>for step in pipeline_steps\<close>. It stops at a required step whose
  outcome is \<^verbatim>\<open>"FAILED"\<close>, after an error notification, and hands that step back
  with the outcomes so far; at the end of the list it hands back no step.
\<close>

fun run_steps ::
  "env \<Rightarrow> config \<Rightarrow> step list \<Rightarrow> outcome list \<Rightarrow> world
     \<Rightarrow> (step option \<times> outcome list) \<times> world"
where
  "run_steps e cfg [] pipeline_results w = ((None, pipeline_results), w)"
| "run_steps e cfg (st # rest) pipeline_results w =
     (let (result, w1) = execute_sql_script e cfg (script st) (step_description st) None w;
          pipeline_results1 = pipeline_results @ [result]
      in if required st \<and> status result = FAILED
         then ((Some st, pipeline_results1), send_notification SEV_ERROR w1)
         else run_steps e cfg rest pipeline_results1 w1)"

definition etl_command :: "env \<Rightarrow> int \<Rightarrow> int \<Rightarrow> string" where
  "etl_command e start_t end_t =
     concat [newline,
       ''    CALL mcp.query_optimization.process_query_performance_incremental('', newline,
       ''        TIMESTAMP('' @ [CHR 0x27] @ isoformat e start_t @ [CHR 0x27] @ ''),'', newline,
       ''        TIMESTAMP('' @ [CHR 0x27] @ isoformat e end_t @ [CHR 0x27] @ '')'', newline,
       ''    )'', newline,
       ''    '']"

definition aggregate_status :: "nat \<Rightarrow> nat \<Rightarrow> status" where
  "aggregate_status successful_steps failed_steps =
     (if failed_steps = 0 then SUCCESS
      else if successful_steps > 0 then PARTIAL_SUCCESS else FAILED)"

definition execute_pipeline :: "env \<Rightarrow> config \<Rightarrow> world \<Rightarrow> pipeline_summary \<times> world" where
  "execute_pipeline e cfg w =
     (let pipeline_start_time = now w;
          w0 = send_notification SEV_INFO w;
          ((failed_step, pipeline_results), w1) = run_steps e cfg pipeline_steps [] w0
      in case failed_step of
           Some st \<Rightarrow>
             (\<lparr>summary_status = FAILED,
               summary_start_time = pipeline_start_time,
               summary_end_time = now w1,
               total_execution_time = now w1 - pipeline_start_time,
               steps_completed = length pipeline_results,
               steps_failed = None,
               steps_total = length pipeline_steps,
               results = pipeline_results,
               summary_error = Some (''Required pipeline step failed: '' @ step_description st)\<rparr>,
              w1)
         | None \<Rightarrow>
             (let end_t = now w1;
                  start_t = end_t - 3600 * INCREMENTAL_WINDOW_HOURS cfg;
                  (etl_result, w2) =
                     execute_sql_command e cfg (etl_command e start_t end_t)
                       ''Process incremental query performance data'' None w1;
                  pipeline_results2 = pipeline_results @ [etl_result];
                  pipeline_end_time = now w2;
                  successful_steps = length (filter (\<lambda>r. status r = SUCCESS) pipeline_results2);
                  failed_steps = length (filter (\<lambda>r. status r = FAILED) pipeline_results2)
              in (\<lparr>summary_status = aggregate_status successful_steps failed_steps,
                    summary_start_time = pipeline_start_time,
                    summary_end_time = pipeline_end_time,
                    total_execution_time = pipeline_end_time - pipeline_start_time,
                    steps_completed = successful_steps,
                    steps_failed = Some failed_steps,
                    steps_total = length pipeline_results2,
                    results = pipeline_results2,
                    summary_error = None\<rparr>,
                  w2)))"

section \<open>Exceptions that leave a function\<close>

text \<open>
  Some calls of the source stand outside every \<^verbatim>\<open>try\<close> block and can raise:
  \<^verbatim>\<open>time.sleep(wait_time)\<close> in the \<^verbatim>\<open>except\<close> branch of the two executors,
  \<^verbatim>\<open>CONFIG.get("system_tables", {}).get(...)\<close> at the head of
  \<^verbatim>\<open>check_system_table_access\<close>, the subtraction
  \<^verbatim>\<open>end_time - timedelta(hours=INCREMENTAL_WINDOW_HOURS)\<close> in \<^verbatim>\<open>execute_pipeline\<close>,
  \<^verbatim>\<open>CONFIG.get("version_info", {}).get(...)\<close> at the head of
  \<^verbatim>\<open>generate_summary_report\<close>, and \<^verbatim>\<open>display(spark.createDataFrame(...))\<close> at
  the top level. With the one \<^verbatim>\<open>raise\<close> statement of the module these are the
  exceptions of this development. Values of the wrong type in the configuration are
  outside it: the configuration is typed.
\<close>

datatype exn = ValueError | OverflowError | AttributeError | Exception string
  | DisplayError string

text \<open>\<^verbatim>\<open>str(e)\<close> of an exception, as the \<^verbatim>\<open>except\<close> branches record it.\<close>

fun str_exn :: "exn \<Rightarrow> string" where
  "str_exn ValueError = ''sleep length must be non-negative''"
| "str_exn OverflowError = ''timestamp too large to convert to C _PyTime_t''"
| "str_exn AttributeError = [CHR 0x27] @ ''NoneType'' @ [CHR 0x27] @
     '' object has no attribute '' @ [CHR 0x27] @ ''get'' @ [CHR 0x27]"
| "str_exn (Exception msg) = msg"
| "str_exn (DisplayError msg) = msg"

text \<open>
  \<^verbatim>\<open>time.sleep(secs)\<close> for an integer: the length is kept as a signed 64-bit number
  of nanoseconds, so a length beyond \<open>sleep_limit\<close> seconds in either direction is
  an \<^verbatim>\<open>OverflowError\<close>; a negative length within the range is a \<^verbatim>\<open>ValueError\<close>;
  any other length is slept.
\<close>

definition sleep_limit :: int where
  "sleep_limit = 9223372036"

definition time_sleep :: "int \<Rightarrow> world \<Rightarrow> exn + world" where
  "time_sleep secs w =
     (if secs < - sleep_limit \<or> sleep_limit < secs then Inl OverflowError
      else if secs < 0 then Inl ValueError
      else Inr (sleep (nat secs) w))"

text \<open>
  The reading of the clock is taken in seconds from the first of January 1970. A
  \<^verbatim>\<open>datetime\<close> lies in the years 1 to 9999; the subtraction of the window raises
  an \<^verbatim>\<open>OverflowError\<close> when the \<^verbatim>\<open>timedelta\<close> or the difference is out of range,
  which is when the difference is no \<^verbatim>\<open>datetime\<close>.
\<close>

definition datetime_min :: int where
  "datetime_min = - 62135596800"

definition datetime_end :: int where
  "datetime_end = 253402300800"

definition window_start :: "int \<Rightarrow> int \<Rightarrow> exn + int" where
  "window_start end_t hours =
     (let start_t = end_t - 3600 * hours
      in if start_t < datetime_min \<or> datetime_end \<le> start_t then Inl OverflowError
         else Inr start_t)"

text \<open>
  The configuration as it is loaded: the typed record of the sections above, the
  entry \<^verbatim>\<open>etl.retry_delay_seconds\<close> as the integer the document gives, and whether
  the document has a \<^verbatim>\<open>system_tables\<close> section and a \<^verbatim>\<open>version_info\<close> section that
  are null. The field \<open>RETRY_DELAY_SECONDS\<close> of the typed record is the same delay
  when that is a natural number, and is not read by the functions of this section.
\<close>

record loaded_config =
  typed :: config
  retry_delay_seconds :: int
  system_tables_null :: bool
  version_info_null :: bool

text \<open>
  The loop of the executors again, with \<^verbatim>\<open>time.sleep\<close> as it is: when the sleep
  raises, the exception leaves the loop and the function, and the world is the one
  after the failed attempt.
\<close>

function retry_loop_exn ::
  "env \<Rightarrow> int \<Rightarrow> work \<Rightarrow> int \<Rightarrow> nat \<Rightarrow> outcome \<Rightarrow> world \<Rightarrow> (exn + outcome) \<times> world"
where
  "retry_loop_exn e delay wk max_retries attempt result w =
     (if int attempt < max_retries then
        (let result1 = result\<lparr>attempt_count := attempt + 1\<rparr>;
             (r, w1) = perform e wk w
         in case error_of r of
              None \<Rightarrow>
                (let result2 = result1\<lparr>row_count := rows_of r\<rparr>;
                     result3 = result2\<lparr>status := SUCCESS\<rparr>;
                     result4 = result3\<lparr>end_time := Some (now w1)\<rparr>
                 in (Inr (result4\<lparr>execution_time_seconds := now w1 - start_time result4\<rparr>),
                     w1))
            | Some error_msg \<Rightarrow>
                (let result2 = result1\<lparr>error_message := Some error_msg\<rparr>
                 in if int attempt = max_retries - 1 then
                      (let result3 = result2\<lparr>status := FAILED\<rparr>;
                           result4 = result3\<lparr>end_time := Some (now w1)\<rparr>
                       in (Inr (result4\<lparr>execution_time_seconds :=
                                           now w1 - start_time result4\<rparr>), w1))
                    else
                      (let wait_time = delay * (2 ^ attempt)
                       in case time_sleep wait_time w1 of
                            Inl ex \<Rightarrow> (Inl ex, w1)
                          | Inr w2 \<Rightarrow>
                              retry_loop_exn e delay wk max_retries (attempt + 1) result2 w2)))
      else (Inr result, w))"
  by pat_completeness auto
termination
  by (relation "measure (\<lambda>(e, delay, wk, max_retries, attempt, result, w).
                  nat (max_retries - int attempt))") auto

definition execute_sql_script_exn ::
  "env \<Rightarrow> loaded_config \<Rightarrow> string \<Rightarrow> string \<Rightarrow> int option \<Rightarrow> world
     \<Rightarrow> (exn + outcome) \<times> world"
where
  "execute_sql_script_exn e lc script_path descr max_retries w =
     (let result = \<lparr>subject = Script script_path, description = descr,
                     status = PENDING, start_time = now w, end_time = None,
                     execution_time_seconds = 0, attempt_count = 0,
                     error_message = None, row_count = 0\<rparr>
      in retry_loop_exn e (retry_delay_seconds lc) (ScriptFile script_path)
           (retries_or_default (typed lc) max_retries) 0 result w)"

definition execute_sql_command_exn ::
  "env \<Rightarrow> loaded_config \<Rightarrow> string \<Rightarrow> string \<Rightarrow> int option \<Rightarrow> world
     \<Rightarrow> (exn + outcome) \<times> world"
where
  "execute_sql_command_exn e lc sql_command descr max_retries w =
     (let result = \<lparr>subject = Command (display_command sql_command), description = descr,
                     status = PENDING, start_time = now w, end_time = None,
                     execution_time_seconds = 0, attempt_count = 0,
                     error_message = None, row_count = 0\<rparr>
      in retry_loop_exn e (retry_delay_seconds lc) (InlineSql sql_command)
           (retries_or_default (typed lc) max_retries) 0 result w)"

text \<open>
  \<^verbatim>\<open>check_system_table_access\<close> reads the required tables first. When the section
  \<^verbatim>\<open>system_tables\<close> is null, \<^verbatim>\<open>CONFIG.get("system_tables", {})\<close> is \<^verbatim>\<open>None\<close> and
  the second \<^verbatim>\<open>.get\<close> raises an \<^verbatim>\<open>AttributeError\<close> before any table is queried;
  otherwise the function is the one above. \<^verbatim>\<open>validate_prerequisites\<close> calls it
  outside its \<^verbatim>\<open>try\<close> blocks, as its first check, and goes on to the schema, the
  sections of the configuration and the resources.
\<close>

definition check_system_table_access_exn ::
  "env \<Rightarrow> loaded_config \<Rightarrow> world \<Rightarrow> (exn + access_result list) \<times> world"
where
  "check_system_table_access_exn e lc w =
     (if system_tables_null lc then (Inl AttributeError, w)
      else (let (access_results, w1) = check_system_table_access e (typed lc) w
            in (Inr access_results, w1)))"

definition validate_prerequisites ::
  "env \<Rightarrow> loaded_config \<Rightarrow> world \<Rightarrow> (exn + bool \<times> string list) \<times> world"
where
  "validate_prerequisites e lc w =
     (case check_system_table_access_exn e lc w of
        (Inl ex, w1) \<Rightarrow> (Inl ex, w1)
      | (Inr access_results, w1) \<Rightarrow>
          (let cfg = typed lc;
               failed_access = filter (\<lambda>r. \<not> accessible r) access_results;
               errors1 = map (\<lambda>failure. ''Cannot access '' @ table failure @ '': '' @
                                          str_of (access_error failure)) failed_access;
               (schema_errors, w2) = check_schema e cfg w1;
               errors2 = errors1 @ schema_errors;
               errors3 = errors2 @
                         map (\<lambda>key. ''Missing required configuration section: '' @ key)
                             (filter (\<lambda>key. key \<notin> set (config_keys cfg))
                                required_config_keys);
               (resource_errors, w3) = check_resources e w2;
               validation_errors = errors3 @ resource_errors
           in (Inr (validation_errors = [], validation_errors), w3)))"

text \<open>
  The loop over the steps and \<^verbatim>\<open>execute_pipeline\<close> again: an exception of an
  executor leaves both, since neither has a \<^verbatim>\<open>try\<close> block, and so does an
  exception of the subtraction of the window.
\<close>

fun run_steps_exn ::
  "env \<Rightarrow> loaded_config \<Rightarrow> step list \<Rightarrow> outcome list \<Rightarrow> world
     \<Rightarrow> (exn + step option \<times> outcome list) \<times> world"
where
  "run_steps_exn e lc [] pipeline_results w = (Inr (None, pipeline_results), w)"
| "run_steps_exn e lc (st # rest) pipeline_results w =
     (case execute_sql_script_exn e lc (script st) (step_description st) None w of
        (Inl ex, w1) \<Rightarrow> (Inl ex, w1)
      | (Inr result, w1) \<Rightarrow>
          (let pipeline_results1 = pipeline_results @ [result]
           in if required st \<and> status result = FAILED
              then (Inr (Some st, pipeline_results1), send_notification SEV_ERROR w1)
              else run_steps_exn e lc rest pipeline_results1 w1))"

definition execute_pipeline_exn ::
  "env \<Rightarrow> loaded_config \<Rightarrow> world \<Rightarrow> (exn + pipeline_summary) \<times> world"
where
  "execute_pipeline_exn e lc w =
     (let pipeline_start_time = now w;
          w0 = send_notification SEV_INFO w
      in case run_steps_exn e lc pipeline_steps [] w0 of
           (Inl ex, w1) \<Rightarrow> (Inl ex, w1)
         | (Inr (Some st, pipeline_results), w1) \<Rightarrow>
             (Inr \<lparr>summary_status = FAILED,
                   summary_start_time = pipeline_start_time,
                   summary_end_time = now w1,
                   total_execution_time = now w1 - pipeline_start_time,
                   steps_completed = length pipeline_results,
                   steps_failed = None,
                   steps_total = length pipeline_steps,
                   results = pipeline_results,
                   summary_error =
                     Some (''Required pipeline step failed: '' @ step_description st)\<rparr>,
              w1)
         | (Inr (None, pipeline_results), w1) \<Rightarrow>
             (let end_t = now w1
              in case window_start end_t (INCREMENTAL_WINDOW_HOURS (typed lc)) of
                   Inl ex \<Rightarrow> (Inl ex, w1)
                 | Inr start_t \<Rightarrow>
                     (case execute_sql_command_exn e lc (etl_command e start_t end_t)
                             ''Process incremental query performance data'' None w1 of
                        (Inl ex, w2) \<Rightarrow> (Inl ex, w2)
                      | (Inr etl_result, w2) \<Rightarrow>
                          (let pipeline_results2 = pipeline_results @ [etl_result];
                               pipeline_end_time = now w2;
                               successful_steps =
                                 length (filter (\<lambda>r. status r = SUCCESS) pipeline_results2);
                               failed_steps =
                                 length (filter (\<lambda>r. status r = FAILED) pipeline_results2)
                           in (Inr \<lparr>summary_status =
                                       aggregate_status successful_steps failed_steps,
                                     summary_start_time = pipeline_start_time,
                                     summary_end_time = pipeline_end_time,
                                     total_execution_time =
                                       pipeline_end_time - pipeline_start_time,
                                     steps_completed = successful_steps,
                                     steps_failed = Some failed_steps,
                                     steps_total = length pipeline_results2,
                                     results = pipeline_results2,
                                     summary_error = None\<rparr>,
                               w2)))))"

section \<open>Post-execution validation\<close>

text \<open>
  An entry of \<^verbatim>\<open>data_quality_checks\<close>: the outcome of the quality script, or the
  dictionary \<^verbatim>\<open>{"status": "FAILED", "error": str(e)}\<close> that the \<^verbatim>\<open>except\<close> branch
  around the call writes when the executor raises.
\<close>

datatype quality_check = Ran outcome | Crashed string

fun quality_status :: "quality_check \<Rightarrow> status" where
  "quality_status (Ran result) = status result"
| "quality_status (Crashed msg) = FAILED"

record validation_results =
  validation_start_time :: int
  table_health_checks :: "health_check list"
  data_quality_checks :: "quality_check list"
  overall_status :: status
  validation_end_time :: int

definition key_tables :: "string list" where
  "key_tables =
     [''query_performance_raw'', ''query_patterns'', ''optimization_tracking'',
      ''performance_baselines'']"

text \<open>The loop \<^verbatim>\<open>for table_name in key_tables\<close>.\<close>

fun health_checks ::
  "env \<Rightarrow> config \<Rightarrow> string list \<Rightarrow> health_check list \<Rightarrow> world
     \<Rightarrow> health_check list \<times> world"
where
  "health_checks e cfg [] checks w = (checks, w)"
| "health_checks e cfg (tname # rest) checks w =
     (let (health, w1) = check_table_health e cfg tname None w
      in health_checks e cfg rest (checks @ [health]) w1)"

text \<open>
  The quality script runs inside a \<^verbatim>\<open>try\<close> block, so an exception of the executor
  is caught here and recorded; the function itself never raises.
\<close>

definition validate_pipeline_results ::
  "env \<Rightarrow> loaded_config \<Rightarrow> world \<Rightarrow> validation_results \<times> world"
where
  "validate_pipeline_results e lc w =
     (let started = now w;
          (checks, w1) = health_checks e (typed lc) key_tables [] w;
          (quality_result, w2) =
             execute_sql_script_exn e lc ''../validation/data_quality_tests.sql''
               ''Data quality validation tests'' None w1;
          quality = [case quality_result of
                       Inr result \<Rightarrow> Ran result
                     | Inl ex \<Rightarrow> Crashed (str_exn ex)];
          health_failures = filter (\<lambda>h. health_status h = FAILED) checks;
          quality_failures = filter (\<lambda>q. quality_status q = FAILED) quality
      in (\<lparr>validation_start_time = started,
            table_health_checks = checks,
            data_quality_checks = quality,
            overall_status =
              (if health_failures \<noteq> [] \<or> quality_failures \<noteq> [] then FAILED else SUCCESS),
            validation_end_time = now w2\<rparr>,
          w2))"

section \<open>The summary report\<close>

text \<open>
  Of the report, the timestamp, the copy of the configuration and the performance
  metrics (floating-point quotients) are left out. The two records always carry
  their status, so the defaults of \<^verbatim>\<open>.get("status", "UNKNOWN")\<close> and
  \<^verbatim>\<open>.get("overall_status", "UNKNOWN")\<close> are not needed.
\<close>

record report =
  report_pipeline_summary :: pipeline_summary
  report_validation_results :: validation_results
  report_overall_status :: status

definition generate_summary_report ::
  "pipeline_summary \<Rightarrow> validation_results \<Rightarrow> world \<Rightarrow> report \<times> world"
where
  "generate_summary_report summary validation w =
     (let pipeline_status = summary_status summary;
          validation_status = overall_status validation;
          (overall, sev) =
             (if pipeline_status = SUCCESS \<and> validation_status = SUCCESS
              then (SUCCESS, SEV_INFO)
              else if pipeline_status = PARTIAL_SUCCESS \<or> validation_status = FAILED
              then (WARNING, SEV_WARNING)
              else (FAILED, SEV_ERROR))
      in (\<lparr>report_pipeline_summary = summary,
            report_validation_results = validation,
            report_overall_status = overall\<rparr>,
          send_notification sev w))"

section \<open>Cleanup and optimization\<close>

record optimization_result =
  optimized_table :: string
  optimization_status :: status
  optimization_error :: "string option"

definition tables_to_optimize :: "string list" where
  "tables_to_optimize =
     [''query_performance_raw'', ''query_patterns'', ''optimization_tracking'',
      ''performance_baselines'']"

definition materialized_views :: "string list" where
  "materialized_views =
     [''mv_hourly_performance'', ''mv_daily_performance'', ''mv_pattern_performance'',
      ''mv_user_performance'', ''mv_performance_alerts'']"

text \<open>One table: \<^verbatim>\<open>OPTIMIZE\<close>, then \<^verbatim>\<open>ANALYZE TABLE\<close>, in one \<^verbatim>\<open>try\<close> block.\<close>

definition optimize_table ::
  "env \<Rightarrow> config \<Rightarrow> string \<Rightarrow> world \<Rightarrow> optimization_result \<times> world"
where
  "optimize_table e cfg tname w =
     (let full = CATALOG cfg @ ''.'' @ SCHEMA cfg @ ''.'' @ tname;
          failed = (\<lambda>msg. \<lparr>optimized_table = tname, optimization_status = FAILED,
                            optimization_error = Some msg\<rparr>);
          (r1, w1) = perform e (InlineSql (''OPTIMIZE '' @ full)) w
      in case error_of r1 of
           Some msg \<Rightarrow> (failed msg, w1)
         | None \<Rightarrow>
             (let (r2, w2) = perform e (InlineSql (''ANALYZE TABLE '' @ full @
                                                   '' COMPUTE STATISTICS'')) w1
              in case error_of r2 of
                   Some msg \<Rightarrow> (failed msg, w2)
                 | None \<Rightarrow> (\<lparr>optimized_table = tname, optimization_status = SUCCESS,
                               optimization_error = None\<rparr>, w2)))"

fun optimize_tables ::
  "env \<Rightarrow> config \<Rightarrow> string list \<Rightarrow> optimization_result list \<Rightarrow> world
     \<Rightarrow> optimization_result list \<times> world"
where
  "optimize_tables e cfg [] optimization_results w = (optimization_results, w)"
| "optimize_tables e cfg (tname # rest) optimization_results w =
     (let (r, w1) = optimize_table e cfg tname w
      in optimize_tables e cfg rest (optimization_results @ [r]) w1)"

text \<open>
  The views are refreshed inside one \<^verbatim>\<open>try\<close> block: the first error ends the loop.
\<close>

fun refresh_views :: "env \<Rightarrow> config \<Rightarrow> string list \<Rightarrow> world \<Rightarrow> world" where
  "refresh_views e cfg [] w = w"
| "refresh_views e cfg (view_name # rest) w =
     (let (r, w1) = perform e (InlineSql (''REFRESH MATERIALIZED VIEW '' @ CATALOG cfg @
                                          ''.'' @ SCHEMA cfg @ ''.'' @ view_name)) w
      in case error_of r of
           Some msg \<Rightarrow> w1
         | None \<Rightarrow> refresh_views e cfg rest w1)"

definition perform_table_optimization ::
  "env \<Rightarrow> config \<Rightarrow> world \<Rightarrow> optimization_result list \<times> world"
where
  "perform_table_optimization e cfg w =
     (let (optimization_results, w1) = optimize_tables e cfg tables_to_optimize [] w
      in (optimization_results, refresh_views e cfg materialized_views w1))"

section \<open>The notebook from top to bottom\<close>

text \<open>
  The statements at the top level of the module, in their order. The prerequisites
  are validated; an exception of the validation ends the run, and when the
  validation reports errors, an error notification is sent and
  \<^verbatim>\<open>raise Exception(error_message)\<close> ends the run. Otherwise the pipeline runs, and
  an exception of it ends the run. Then the results are validated and the report is
  generated, where a \<^verbatim>\<open>version_info\<close> section that is null raises at the head of
  \<^verbatim>\<open>generate_summary_report\<close>, before its notification. The metrics are displayed,
  where an exception of the session ends the run, and last the tables are optimized.
  The exception is the left summand. Loading the configuration is not modelled.
\<close>

record run_result =
  run_pipeline_summary :: pipeline_summary
  run_validation_results :: validation_results
  run_summary_report :: report
  run_optimization_results :: "optimization_result list"

definition run_notebook ::
  "env \<Rightarrow> loaded_config \<Rightarrow> world \<Rightarrow> (exn + run_result) \<times> world"
where
  "run_notebook e lc w =
     (case validate_prerequisites e lc w of
        (Inl ex, w1) \<Rightarrow> (Inl ex, w1)
      | (Inr (validation_success, validation_errors), w1) \<Rightarrow>
          if \<not> validation_success
          then (Inl (Exception (''Prerequisites validation failed: '' @
                                join ''; '' validation_errors)),
                send_notification SEV_ERROR w1)
          else
            (case execute_pipeline_exn e lc w1 of
               (Inl ex, w2) \<Rightarrow> (Inl ex, w2)
             | (Inr summary, w2) \<Rightarrow>
                 (let (validation, w3) = validate_pipeline_results e lc w2
                  in if version_info_null lc then (Inl AttributeError, w3)
                     else
                       (let (summary_report, w4) =
                              generate_summary_report summary validation w3;
                            (shown, w5) = perform e ShowMetrics w4
                        in case error_of shown of
                             Some msg \<Rightarrow> (Inl (DisplayError msg), w5)
                           | None \<Rightarrow>
                               (let (optimization_results, w6) =
                                      perform_table_optimization e (typed lc) w5
                                in (Inr \<lparr>run_pipeline_summary = summary,
                                         run_validation_results = validation,
                                         run_summary_report = summary_report,
                                         run_optimization_results =
                                           optimization_results\<rparr>,
                                    w6))))))"

section \<open>Observations and example environments\<close>

text \<open>The units of work of a trace, and the lengths of its sleeps, in order.\<close>

fun submitted :: "event list \<Rightarrow> work list" where
  "submitted [] = []"
| "submitted (Exec wk r # evs) = wk # submitted evs"
| "submitted (ev # evs) = submitted evs"

fun sleep_lengths :: "event list \<Rightarrow> nat list" where
  "sleep_lengths [] = []"
| "sleep_lengths (Sleep d # evs) = d # sleep_lengths evs"
| "sleep_lengths (ev # evs) = sleep_lengths evs"

text \<open>
  The statements of the four checks of \<^verbatim>\<open>validate_prerequisites\<close>, and the
  statement that a world \<open>w'\<close> continues the world \<open>w\<close> with units of work from the
  set \<open>S\<close> only.
\<close>

definition preflight_statements :: "config \<Rightarrow> string list" where
  "preflight_statements cfg =
     map access_query (required_tables cfg) @
     [''USE CATALOG '' @ CATALOG cfg,
      ''SHOW SCHEMAS LIKE '' @ [CHR 0x27] @ SCHEMA cfg @ [CHR 0x27],
      ''SELECT 1'']"

definition only_submits :: "work set \<Rightarrow> world \<Rightarrow> world \<Rightarrow> bool" where
  "only_submits S w w' =
     (take (length (trace w)) (trace w') = trace w
      \<and> set (submitted (drop (length (trace w)) (trace w'))) \<subseteq> S)"

text \<open>
  Every sleep of an executor with \<open>n\<close> retries returns: there is none when
  \<open>n \<le> 1\<close>, and otherwise the delay is not negative and the longest sleep, before
  the last attempt, is within the range of \<^verbatim>\<open>time.sleep\<close>.
\<close>

definition sleeps_return :: "int \<Rightarrow> int \<Rightarrow> bool" where
  "sleeps_return delay n = (n \<le> 1 \<or> (0 \<le> delay \<and> delay * 2 ^ nat (n - 2) \<le> sleep_limit))"

text \<open>
  The events of \<open>m\<close> attempts that start at tick \<open>t\<close> with the attempt index \<open>a\<close>:
  each attempt but the last is followed by its sleep.
\<close>

definition attempt_events :: "env \<Rightarrow> config \<Rightarrow> work \<Rightarrow> nat \<Rightarrow> nat \<Rightarrow> nat \<Rightarrow> event list" where
  "attempt_events e cfg wk t a m =
     concat (map (\<lambda>j. Exec wk (respond e (t + j) wk) #
                       (if Suc j < m then [Sleep (RETRY_DELAY_SECONDS cfg * 2 ^ (a + j))] else []))
                 [0..<m])"

text \<open>
  A world at the start of a run, a configuration like the fallback of
  \<^verbatim>\<open>load_config\<close> with the delay as a parameter, an environment in which every unit
  of work raises, one in which every unit of work returns \<open>n\<close> rows, and one in which
  the units of work named in a list raise and the others return no rows.
\<close>

definition initial_world :: world where
  "initial_world = \<lparr>tick = 0, clock = 0, trace = []\<rparr>"

definition fallback_config :: "nat \<Rightarrow> config" where
  "fallback_config delay =
     \<lparr>config_keys = [''schemas'', ''etl'', ''performance_thresholds''],
      CATALOG = ''mcp'', SCHEMA = ''query_optimization'',
      MAX_RETRY_ATTEMPTS = 3, RETRY_DELAY_SECONDS = delay,
      INCREMENTAL_WINDOW_HOURS = 1, system_tables_required = None\<rparr>"

definition failing_env :: "string \<Rightarrow> env" where
  "failing_env msg = \<lparr>respond = (\<lambda>t wk. Raised msg), isoformat = (\<lambda>t. ''T'')\<rparr>"

definition working_env :: "nat \<Rightarrow> env" where
  "working_env n = \<lparr>respond = (\<lambda>t wk. Done n), isoformat = (\<lambda>t. ''T'')\<rparr>"

definition broken_env :: "work list \<Rightarrow> env" where
  "broken_env broken =
     \<lparr>respond = (\<lambda>t wk. if wk \<in> set broken then Raised ''boom'' else Done 0),
      isoformat = (\<lambda>t. ''T'')\<rparr>"

text \<open>
  An environment in which the script with the given path cannot be run and every
  other unit of work returns no rows.
\<close>

definition broken_script_env :: "string \<Rightarrow> env" where
  "broken_script_env path = broken_env [ScriptFile path]"

text \<open>
  The fallback configuration as loaded, with the given integer as the delay and
  neither a \<^verbatim>\<open>system_tables\<close> nor a \<^verbatim>\<open>version_info\<close> section.
\<close>

definition fallback_loaded :: "int \<Rightarrow> loaded_config" where
  "fallback_loaded delay =
     \<lparr>typed = fallback_config (nat delay), retry_delay_seconds = delay,
      system_tables_null = False, version_info_null = False\<rparr>"

text \<open>An environment in which a unit of work fails twice and then returns 7 rows.\<close>

definition flaky_env :: env where
  "flaky_env = \<lparr>respond = (\<lambda>t wk. if t < 2 then Raised ''busy'' else Done 7),
                isoformat = (\<lambda>t. ''T'')\<rparr>"

text \<open>
  An environment in which the first script of the pipeline cannot be run and the
  table \<^verbatim>\<open>query_performance_raw\<close> does not exist.
\<close>

definition first_step_broken_env :: env where
  "first_step_broken_env =
     broken_env [ScriptFile ''../sql/01_schema_setup.sql'',
                 InlineSql ''DESCRIBE TABLE mcp.query_optimization.query_performance_raw'']"

section \<open>Properties of the executor\<close>

declare retry_loop.simps [simp del]

lemma retry_loop_done:
  "\<not> int attempt < max_retries \<Longrightarrow> retry_loop e cfg wk max_retries attempt result w = (result, w)"
  by (simp add: retry_loop.simps)

lemma retry_loop_success:
  assumes "int attempt < max_retries" "error_of (respond e (tick w) wk) = None"
  shows "retry_loop e cfg wk max_retries attempt result w =
           (result\<lparr>attempt_count := attempt + 1, row_count := rows_of (respond e (tick w) wk),
                   status := SUCCESS, end_time := Some (clock w),
                   execution_time_seconds := clock w - start_time result\<rparr>,
            w\<lparr>tick := Suc (tick w), trace := trace w @ [Exec wk (respond e (tick w) wk)]\<rparr>)"
  using assms by (simp add: retry_loop.simps [of e cfg wk max_retries attempt] perform_def now_def Let_def)

lemma retry_loop_last_failure:
  assumes "int attempt = max_retries - 1" "error_of (respond e (tick w) wk) = Some msg"
  shows "retry_loop e cfg wk max_retries attempt result w =
           (result\<lparr>attempt_count := attempt + 1, error_message := Some msg,
                   status := FAILED, end_time := Some (clock w),
                   execution_time_seconds := clock w - start_time result\<rparr>,
            w\<lparr>tick := Suc (tick w), trace := trace w @ [Exec wk (respond e (tick w) wk)]\<rparr>)"
  using assms by (simp add: retry_loop.simps [of e cfg wk max_retries attempt] perform_def now_def Let_def)

lemma retry_loop_retry:
  assumes "int attempt < max_retries - 1" "error_of (respond e (tick w) wk) = Some msg"
  shows "retry_loop e cfg wk max_retries attempt result w =
           retry_loop e cfg wk max_retries (Suc attempt)
             (result\<lparr>attempt_count := attempt + 1, error_message := Some msg\<rparr>)
             (w\<lparr>tick := Suc (tick w),
                clock := clock w + int (RETRY_DELAY_SECONDS cfg * 2 ^ attempt),
                trace := trace w @ [Exec wk (respond e (tick w) wk),
                                    Sleep (RETRY_DELAY_SECONDS cfg * 2 ^ attempt)]\<rparr>)"
  using assms by (simp add: retry_loop.simps [of e cfg wk max_retries attempt] perform_def now_def sleep_def Let_def)

lemma retry_loop_all_fail:
  assumes "\<forall>j<k. error_of (respond e (tick w + j) wk) \<noteq> None" "int (a + k) = n" "0 < k"
  shows "status (fst (retry_loop e cfg wk n a r w)) = FAILED
       \<and> attempt_count (fst (retry_loop e cfg wk n a r w)) = a + k
       \<and> error_message (fst (retry_loop e cfg wk n a r w)) = error_of (respond e (tick w + k - 1) wk)
       \<and> row_count (fst (retry_loop e cfg wk n a r w)) = row_count r
       \<and> tick (snd (retry_loop e cfg wk n a r w)) = tick w + k"
  using assms
proof (induction k arbitrary: a r w)
  case 0
  then show ?case by simp
next
  case (Suc k)
  from Suc.prems(1) obtain msg where msg: "error_of (respond e (tick w) wk) = Some msg"
    by (metis add.right_neutral not_None_eq zero_less_Suc)
  show ?case
  proof (cases "k = 0")
    case True
    with Suc.prems have "int a = n - 1" by simp
    from retry_loop_last_failure [OF this msg] True msg show ?thesis by simp
  next
    case False
    with Suc.prems have lt: "int a < n - 1" by simp
    let ?r = "r\<lparr>attempt_count := a + 1, error_message := Some msg\<rparr>"
    let ?w = "w\<lparr>tick := Suc (tick w),
                clock := clock w + int (RETRY_DELAY_SECONDS cfg * 2 ^ a),
                trace := trace w @ [Exec wk (respond e (tick w) wk),
                                    Sleep (RETRY_DELAY_SECONDS cfg * 2 ^ a)]\<rparr>"
    have step: "retry_loop e cfg wk n a r w = retry_loop e cfg wk n (Suc a) ?r ?w"
      by (rule retry_loop_retry [OF lt msg])
    have h1: "\<forall>j<k. error_of (respond e (tick ?w + j) wk) \<noteq> None"
      using Suc.prems(1) by auto
    have h2: "int (Suc a + k) = n" using Suc.prems(2) by simp
    have h3: "0 < k" using False by simp
    from Suc.IH [OF h1 h2 h3, of ?r] False show ?thesis
      unfolding step by simp
  qed
qed

lemma retry_loop_first_success:
  assumes "\<forall>j<k. error_of (respond e (tick w + j) wk) \<noteq> None"
    "error_of (respond e (tick w + k) wk) = None" "int (a + k) < n"
  shows "status (fst (retry_loop e cfg wk n a r w)) = SUCCESS
       \<and> attempt_count (fst (retry_loop e cfg wk n a r w)) = a + k + 1
       \<and> row_count (fst (retry_loop e cfg wk n a r w)) = rows_of (respond e (tick w + k) wk)
       \<and> tick (snd (retry_loop e cfg wk n a r w)) = tick w + k + 1"
  using assms
proof (induction k arbitrary: a r w)
  case 0
  then have lt: "int a < n" and ok: "error_of (respond e (tick w) wk) = None" by simp_all
  show ?case by (simp add: retry_loop_success [OF lt ok])
next
  case (Suc k)
  from Suc.prems(1) obtain msg where msg: "error_of (respond e (tick w) wk) = Some msg"
    by (metis add.right_neutral not_None_eq zero_less_Suc)
  from Suc.prems(3) have lt: "int a < n - 1" by simp
  let ?r = "r\<lparr>attempt_count := a + 1, error_message := Some msg\<rparr>"
  let ?w = "w\<lparr>tick := Suc (tick w),
              clock := clock w + int (RETRY_DELAY_SECONDS cfg * 2 ^ a),
              trace := trace w @ [Exec wk (respond e (tick w) wk),
                                  Sleep (RETRY_DELAY_SECONDS cfg * 2 ^ a)]\<rparr>"
  have step: "retry_loop e cfg wk n a r w = retry_loop e cfg wk n (Suc a) ?r ?w"
    by (rule retry_loop_retry [OF lt msg])
  have h1: "\<forall>j<k. error_of (respond e (tick ?w + j) wk) \<noteq> None"
    using Suc.prems(1) by auto
  have h2: "error_of (respond e (tick ?w + k) wk) = None" using Suc.prems(2) by simp
  have h3: "int (Suc a + k) < n" using Suc.prems(3) by simp
  from Suc.IH [OF h1 h2 h3, of ?r] show ?case
    unfolding step by simp
qed

lemma attempt_events_one: "attempt_events e cfg wk t a (Suc 0) = [Exec wk (respond e t wk)]"
  by (simp add: attempt_events_def)

lemma attempt_events_Suc:
  "0 < m \<Longrightarrow> attempt_events e cfg wk t a (Suc m) =
     Exec wk (respond e t wk) # Sleep (RETRY_DELAY_SECONDS cfg * 2 ^ a) #
       attempt_events e cfg wk (Suc t) (Suc a) m"
proof -
  assume m: "0 < m"
  have "[0..<Suc m] = 0 # map Suc [0..<m]"
    by (simp add: upt_conv_Cons map_Suc_upt del: upt_Suc)
  then show ?thesis using m
    by (simp add: attempt_events_def comp_def del: upt_Suc cong: if_cong)
qed

lemma retry_loop_trace:
  assumes "int a < n"
  shows "a < attempt_count (fst (retry_loop e cfg wk n a r w))
       \<and> int (attempt_count (fst (retry_loop e cfg wk n a r w))) \<le> n
       \<and> tick (snd (retry_loop e cfg wk n a r w)) =
           tick w + (attempt_count (fst (retry_loop e cfg wk n a r w)) - a)
       \<and> trace (snd (retry_loop e cfg wk n a r w)) =
           trace w @ attempt_events e cfg wk (tick w) a
                       (attempt_count (fst (retry_loop e cfg wk n a r w)) - a)
       \<and> (\<forall>j. Suc j < attempt_count (fst (retry_loop e cfg wk n a r w)) - a \<longrightarrow>
              error_of (respond e (tick w + j) wk) \<noteq> None)"
  using assms
proof (induction "nat (n - int a)" arbitrary: a r w)
  case 0
  then show ?case by simp
next
  case (Suc k)
  show ?case
  proof (cases "error_of (respond e (tick w) wk)")
    case None
    show ?thesis using Suc.prems
      by (simp add: retry_loop_success [OF Suc.prems None] attempt_events_one)
  next
    case (Some msg)
    show ?thesis
    proof (cases "int a = n - 1")
      case True
      show ?thesis
        unfolding retry_loop_last_failure [OF True Some] using Suc.prems
        by (simp add: attempt_events_one)
    next
      case False
      with Suc.prems have lt: "int a < n - 1" by simp
      let ?r = "r\<lparr>attempt_count := a + 1, error_message := Some msg\<rparr>"
      let ?w = "w\<lparr>tick := Suc (tick w),
                  clock := clock w + int (RETRY_DELAY_SECONDS cfg * 2 ^ a),
                  trace := trace w @ [Exec wk (respond e (tick w) wk),
                                      Sleep (RETRY_DELAY_SECONDS cfg * 2 ^ a)]\<rparr>"
      define L where "L = retry_loop e cfg wk n (Suc a) ?r ?w"
      have step: "retry_loop e cfg wk n a r w = L"
        unfolding L_def by (rule retry_loop_retry [OF lt Some])
      have k: "k = nat (n - int (Suc a))" using Suc.hyps(2) by simp
      have lt': "int (Suc a) < n" using lt by simp
      let ?m = "attempt_count (fst L) - Suc a"
      have IH: "Suc a < attempt_count (fst L)
              \<and> int (attempt_count (fst L)) \<le> n
              \<and> tick (snd L) = Suc (tick w) + ?m
              \<and> trace (snd L) =
                  (trace w @ [Exec wk (respond e (tick w) wk),
                              Sleep (RETRY_DELAY_SECONDS cfg * 2 ^ a)]) @
                  attempt_events e cfg wk (Suc (tick w)) (Suc a) ?m
              \<and> (\<forall>j. Suc j < ?m \<longrightarrow> error_of (respond e (Suc (tick w) + j) wk) \<noteq> None)"
        using Suc.hyps(1) [OF k lt', of ?r ?w] unfolding L_def by simp
      then have gt: "Suc a < attempt_count (fst L)" by simp
      then have m: "attempt_count (fst L) - a = Suc ?m" and pos: "0 < ?m" by simp_all
      have c1: "a < attempt_count (fst L)" using gt by simp
      have c2: "int (attempt_count (fst L)) \<le> n" using IH by simp
      have c3: "tick (snd L) = tick w + (attempt_count (fst L) - a)"
        using IH m by simp
      have c4: "trace (snd L) =
                  trace w @ attempt_events e cfg wk (tick w) a (attempt_count (fst L) - a)"
        using IH unfolding m attempt_events_Suc [OF pos] by simp
      have c5: "\<forall>j. Suc j < attempt_count (fst L) - a \<longrightarrow>
                  error_of (respond e (tick w + j) wk) \<noteq> None"
        unfolding m
      proof (intro allI impI)
        fix j assume j: "Suc j < Suc ?m"
        show "error_of (respond e (tick w + j) wk) \<noteq> None"
        proof (cases j)
          case 0
          then show ?thesis using Some by simp
        next
          case (Suc i)
          with j have "Suc i < ?m" by simp
          with IH have "error_of (respond e (Suc (tick w) + i) wk) \<noteq> None" by blast
          then show ?thesis using Suc by simp
        qed
      qed
      show ?thesis unfolding step using c1 c2 c3 c4 c5 by blast
    qed
  qed
qed


lemma retry_loop_subject:
  "subject (fst (retry_loop e cfg wk n a r w)) = subject r
   \<and> description (fst (retry_loop e cfg wk n a r w)) = description r"
proof (induction "nat (n - int a)" arbitrary: a r w)
  case 0
  then show ?case by (simp add: retry_loop_done)
next
  case (Suc k)
  then have lt: "int a < n" by simp
  show ?case
  proof (cases "error_of (respond e (tick w) wk)")
    case None
    show ?thesis by (simp add: retry_loop_success [OF lt None])
  next
    case (Some msg)
    show ?thesis
    proof (cases "int a = n - 1")
      case True
      show ?thesis unfolding retry_loop_last_failure [OF True Some] by simp
    next
      case False
      with lt have lt': "int a < n - 1" by simp
      have k: "k = nat (n - int (Suc a))" using Suc.hyps(2) by simp
      show ?thesis
        unfolding retry_loop_retry [OF lt' Some] using Suc.hyps(1) [OF k] by simp
    qed
  qed
qed

lemma submitted_append: "submitted (xs @ ys) = submitted xs @ submitted ys"
  by (induction xs rule: submitted.induct) simp_all

lemma sleep_lengths_append: "sleep_lengths (xs @ ys) = sleep_lengths xs @ sleep_lengths ys"
  by (induction xs rule: sleep_lengths.induct) simp_all

lemma attempt_events_zero: "attempt_events e cfg wk t a 0 = []"
  by (simp add: attempt_events_def)

lemma submitted_attempt_events: "submitted (attempt_events e cfg wk t a m) = replicate m wk"
proof (induction m arbitrary: t a)
  case 0
  show ?case by (simp add: attempt_events_zero)
next
  case (Suc m)
  show ?case
  proof (cases "m = 0")
    case True
    then show ?thesis by (simp add: attempt_events_one)
  next
    case False
    then have pos: "0 < m" by simp
    show ?thesis by (simp add: attempt_events_Suc [OF pos] Suc.IH)
  qed
qed

lemma sleep_lengths_attempt_events:
  "sleep_lengths (attempt_events e cfg wk t a m) =
     map (\<lambda>j. RETRY_DELAY_SECONDS cfg * 2 ^ (a + j)) [0..<m - 1]"
proof (induction m arbitrary: t a)
  case 0
  show ?case by (simp add: attempt_events_zero)
next
  case (Suc m)
  show ?case
  proof (cases "m = 0")
    case True
    then show ?thesis by (simp add: attempt_events_one)
  next
    case False
    then obtain m' where m': "m = Suc m'" by (cases m) simp_all
    have pos: "0 < m" using False by simp
    have upt: "[0..<Suc m'] = 0 # map Suc [0..<m']"
      by (simp add: upt_conv_Cons map_Suc_upt del: upt_Suc)
    have "sleep_lengths (attempt_events e cfg wk t a (Suc m)) =
            RETRY_DELAY_SECONDS cfg * 2 ^ a #
            map (\<lambda>j. RETRY_DELAY_SECONDS cfg * 2 ^ (Suc a + j)) [0..<m - 1]"
      by (simp add: attempt_events_Suc [OF pos] Suc.IH)
    also have "\<dots> = map (\<lambda>j. RETRY_DELAY_SECONDS cfg * 2 ^ (a + j)) [0..<Suc m - 1]"
      using upt by (simp add: m' comp_def del: upt_Suc)
    finally show ?thesis .
  qed
qed

lemma last_attempt_events:
  "0 < m \<Longrightarrow> last (attempt_events e cfg wk t a m) = Exec wk (respond e (t + (m - 1)) wk)"
proof (induction m arbitrary: t a)
  case 0
  then show ?case by simp
next
  case (Suc m)
  show ?case
  proof (cases "m = 0")
    case True
    then show ?thesis by (simp add: attempt_events_one)
  next
    case False
    then have pos: "0 < m" by simp
    have ne: "attempt_events e cfg wk (Suc t) (Suc a) m \<noteq> []"
      using pos by (cases m) (simp_all add: attempt_events_def del: upt_Suc add: upt_conv_Cons)
    show ?thesis using Suc.IH [OF pos, of "Suc t" "Suc a"] pos ne
      by (simp add: attempt_events_Suc [OF pos])
  qed
qed

lemma backoff_sorted: "sorted_wrt (\<le>) (map (\<lambda>j. (d::nat) * 2 ^ j) [0..<k])"
  by (simp add: sorted_wrt_map sorted_wrt_iff_nth_less)

lemma backoff_strict: "0 < d \<Longrightarrow> sorted_wrt (<) (map (\<lambda>j. (d::nat) * 2 ^ j) [0..<k])"
  by (simp add: sorted_wrt_map sorted_wrt_iff_nth_less)

text \<open>A run of the loop from the first attempt, for any environment.\<close>

lemma retry_loop_run:
  assumes "attempt_count r = 0"
  shows "trace (snd (retry_loop e cfg wk n 0 r w)) =
           trace w @ attempt_events e cfg wk (tick w) 0
                       (attempt_count (fst (retry_loop e cfg wk n 0 r w)))
       \<and> tick (snd (retry_loop e cfg wk n 0 r w)) =
           tick w + attempt_count (fst (retry_loop e cfg wk n 0 r w))
       \<and> (\<forall>j. Suc j < attempt_count (fst (retry_loop e cfg wk n 0 r w)) \<longrightarrow>
              error_of (respond e (tick w + j) wk) \<noteq> None)"
proof (cases "0 < n")
  case True
  then have "int 0 < n" by simp
  from retry_loop_trace [OF this, of e cfg wk r w] show ?thesis by simp
next
  case False
  then have "\<not> int 0 < n" by simp
  then show ?thesis using assms by (simp add: retry_loop_done attempt_events_zero)
qed

subsection \<open>A unit of work that always fails\<close>

declare retry_loop_exn.simps [simp del]

lemma retry_loop_exn_done:
  "\<not> int attempt < max_retries \<Longrightarrow>
     retry_loop_exn e delay wk max_retries attempt result w = (Inr result, w)"
  by (simp add: retry_loop_exn.simps)

lemma retry_loop_exn_success:
  assumes "int attempt < max_retries" "error_of (respond e (tick w) wk) = None"
  shows "retry_loop_exn e delay wk max_retries attempt result w =
           (Inr (result\<lparr>attempt_count := attempt + 1,
                        row_count := rows_of (respond e (tick w) wk),
                        status := SUCCESS, end_time := Some (clock w),
                        execution_time_seconds := clock w - start_time result\<rparr>),
            w\<lparr>tick := Suc (tick w), trace := trace w @ [Exec wk (respond e (tick w) wk)]\<rparr>)"
  using assms
  by (simp add: retry_loop_exn.simps [of e delay wk max_retries attempt] perform_def now_def
        Let_def)

lemma retry_loop_exn_last_failure:
  assumes "int attempt = max_retries - 1" "error_of (respond e (tick w) wk) = Some msg"
  shows "retry_loop_exn e delay wk max_retries attempt result w =
           (Inr (result\<lparr>attempt_count := attempt + 1, error_message := Some msg,
                        status := FAILED, end_time := Some (clock w),
                        execution_time_seconds := clock w - start_time result\<rparr>),
            w\<lparr>tick := Suc (tick w), trace := trace w @ [Exec wk (respond e (tick w) wk)]\<rparr>)"
  using assms
  by (simp add: retry_loop_exn.simps [of e delay wk max_retries attempt] perform_def now_def
        Let_def)

lemma retry_loop_exn_retry:
  assumes "int attempt < max_retries - 1" "error_of (respond e (tick w) wk) = Some msg"
  shows "retry_loop_exn e delay wk max_retries attempt result w =
           (case time_sleep (delay * 2 ^ attempt)
                   (w\<lparr>tick := Suc (tick w),
                      trace := trace w @ [Exec wk (respond e (tick w) wk)]\<rparr>) of
              Inl ex \<Rightarrow>
                (Inl ex, w\<lparr>tick := Suc (tick w),
                           trace := trace w @ [Exec wk (respond e (tick w) wk)]\<rparr>)
            | Inr w2 \<Rightarrow>
                retry_loop_exn e delay wk max_retries (Suc attempt)
                  (result\<lparr>attempt_count := attempt + 1, error_message := Some msg\<rparr>) w2)"
  using assms
  by (simp add: retry_loop_exn.simps [of e delay wk max_retries attempt] perform_def now_def
        Let_def cong: sum.case_cong)

lemma time_sleep_returns:
  "0 \<le> secs \<Longrightarrow> secs \<le> sleep_limit \<Longrightarrow> time_sleep secs w = Inr (sleep (nat secs) w)"
  by (simp add: time_sleep_def sleep_limit_def)

lemma sleeps_return_each:
  assumes "sleeps_return delay n" and "int (Suc k) < n"
  shows "0 \<le> delay * 2 ^ k \<and> delay * 2 ^ k \<le> sleep_limit"
proof -
  from assms have d: "0 \<le> delay" and top: "delay * 2 ^ nat (n - 2) \<le> sleep_limit"
    by (auto simp: sleeps_return_def)
  from assms(2) have "k \<le> nat (n - 2)" by simp
  then have "(2::int) ^ k \<le> 2 ^ nat (n - 2)" by (simp add: power_increasing)
  with d have "delay * 2 ^ k \<le> delay * 2 ^ nat (n - 2)" by (simp add: mult_left_mono)
  with top d show ?thesis by simp
qed

text \<open>When every sleep returns, the loop with exceptions is the loop without.\<close>

lemma retry_loop_exn_agrees:
  assumes "sleeps_return delay n" and "n \<le> 1 \<or> delay = int (RETRY_DELAY_SECONDS cfg)"
  shows "retry_loop_exn e delay wk n a r w =
           (Inr (fst (retry_loop e cfg wk n a r w)), snd (retry_loop e cfg wk n a r w))"
proof (induction "nat (n - int a)" arbitrary: a r w)
  case 0
  then have "\<not> int a < n" by simp
  then show ?case by (simp add: retry_loop_exn_done retry_loop_done)
next
  case (Suc k)
  then have lt: "int a < n" by simp
  show ?case
  proof (cases "error_of (respond e (tick w) wk)")
    case None
    show ?thesis
      by (simp add: retry_loop_exn_success [OF lt None] retry_loop_success [OF lt None])
  next
    case (Some msg)
    show ?thesis
    proof (cases "int a = n - 1")
      case True
      show ?thesis
        by (simp add: retry_loop_exn_last_failure [OF True Some]
              retry_loop_last_failure [OF True Some])
    next
      case False
      with lt have lt': "int a < n - 1" by simp
      then have next_one: "int (Suc a) < n" by simp
      with assms(2) have d: "delay = int (RETRY_DELAY_SECONDS cfg)" by auto
      from sleeps_return_each [OF assms(1) next_one]
      have rng: "0 \<le> delay * 2 ^ a" "delay * 2 ^ a \<le> sleep_limit" by simp_all
      have len: "nat (delay * 2 ^ a) = RETRY_DELAY_SECONDS cfg * 2 ^ a"
        by (simp add: d nat_mult_distrib nat_power_eq)
      have len': "nat (int (RETRY_DELAY_SECONDS cfg) * 2 ^ a) = RETRY_DELAY_SECONDS cfg * 2 ^ a"
        using len by (simp add: d)
      have k: "k = nat (n - int (Suc a))" using Suc.hyps(2) by simp
      show ?thesis
        unfolding retry_loop_exn_retry [OF lt' Some] retry_loop_retry [OF lt' Some]
                  time_sleep_returns [OF rng]
        using Suc.hyps(1) [OF k] by (simp add: sleep_def len' d)
    qed
  qed
qed

lemma retry_loop_exn_exhausted:
  assumes pos: "0 < n" and sl: "sleeps_return delay (int n)"
    and fails: "\<forall>k<n. error_of (respond e (tick w + k) wk) \<noteq> None"
    and fresh: "attempt_count r = 0"
  shows "\<exists>r'. fst (retry_loop_exn e delay wk (int n) 0 r w) = Inr r'
              \<and> status r' = FAILED \<and> attempt_count r' = n
              \<and> error_message r' = error_of (respond e (tick w + (n - 1)) wk)"
    and "tick (snd (retry_loop_exn e delay wk (int n) 0 r w)) = tick w + n"
    and "submitted (trace (snd (retry_loop_exn e delay wk (int n) 0 r w))) =
           submitted (trace w) @ replicate n wk"
proof -
  define cfg :: config where
    "cfg = \<lparr>config_keys = [], CATALOG = [], SCHEMA = [], MAX_RETRY_ATTEMPTS = int n,
            RETRY_DELAY_SECONDS = nat delay, INCREMENTAL_WINDOW_HOURS = 0,
            system_tables_required = None\<rparr>"
  have d: "int n \<le> 1 \<or> delay = int (RETRY_DELAY_SECONDS cfg)"
    using sl by (auto simp: sleeps_return_def cfg_def)
  note A = retry_loop_exn_agrees [OF sl d, of e wk 0 r w]
  have "int (0 + n) = int n" by simp
  note F = retry_loop_all_fail [OF fails this pos, of cfg r]
  note R = retry_loop_run [OF fresh, of e cfg wk "int n" w]
  have t: "tick w + n - 1 = tick w + (n - 1)" using pos by simp
  show "\<exists>r'. fst (retry_loop_exn e delay wk (int n) 0 r w) = Inr r'
              \<and> status r' = FAILED \<and> attempt_count r' = n
              \<and> error_message r' = error_of (respond e (tick w + (n - 1)) wk)"
    using F t by (simp add: A)
  show "tick (snd (retry_loop_exn e delay wk (int n) 0 r w)) = tick w + n"
    using F by (simp add: A)
  show "submitted (trace (snd (retry_loop_exn e delay wk (int n) 0 r w))) =
           submitted (trace w) @ replicate n wk"
    using F R by (simp add: A submitted_append submitted_attempt_events)
qed

text \<open>
  Claim C3, as amended. Let the number of retries be \<open>n \<ge> 1\<close>, let every one of the
  \<open>n\<close> attempts fail, and let every sleep between them return: \<open>n = 1\<close>, or the
  delay is not negative and the longest sleep is within the range of \<^verbatim>\<open>time.sleep\<close>.
  Then \<^verbatim>\<open>execute_sql_script\<close> and \<^verbatim>\<open>execute_sql_command\<close> return, without an
  exception, an outcome with status \<^verbatim>\<open>FAILED\<close>, \<open>attempt_count = n\<close> and the
  message of the last, \<open>n\<close>-th attempt as \<open>error_message\<close>; exactly \<open>n\<close> units of
  work were submitted.
\<close>

theorem permanent_failure_exhausts_retries:
  assumes "0 < n" and "retries_or_default (typed lc) max_retries = int n"
    and "sleeps_return (retry_delay_seconds lc) (int n)"
  shows "((\<forall>k<n. error_of (respond e (tick w + k) (ScriptFile script_path)) \<noteq> None) \<longrightarrow>
            (case execute_sql_script_exn e lc script_path descr max_retries w of
               (returned, w') \<Rightarrow>
                 (\<exists>r. returned = Inr r \<and> status r = FAILED \<and> attempt_count r = n \<and>
                      error_message r =
                        error_of (respond e (tick w + (n - 1)) (ScriptFile script_path))) \<and>
                 tick w' = tick w + n \<and>
                 submitted (trace w') =
                   submitted (trace w) @ replicate n (ScriptFile script_path)))
       \<and> ((\<forall>k<n. error_of (respond e (tick w + k) (InlineSql sql_command)) \<noteq> None) \<longrightarrow>
            (case execute_sql_command_exn e lc sql_command descr max_retries w of
               (returned, w') \<Rightarrow>
                 (\<exists>r. returned = Inr r \<and> status r = FAILED \<and> attempt_count r = n \<and>
                      error_message r =
                        error_of (respond e (tick w + (n - 1)) (InlineSql sql_command))) \<and>
                 tick w' = tick w + n \<and>
                 submitted (trace w') =
                   submitted (trace w) @ replicate n (InlineSql sql_command)))"
proof -
  have loop: "(\<exists>r'. fst (retry_loop_exn e (retry_delay_seconds lc) wk (int n) 0 r w) = Inr r'
                 \<and> status r' = FAILED \<and> attempt_count r' = n
                 \<and> error_message r' = error_of (respond e (tick w + (n - 1)) wk))
            \<and> tick (snd (retry_loop_exn e (retry_delay_seconds lc) wk (int n) 0 r w)) =
                tick w + n
            \<and> submitted (trace (snd (retry_loop_exn e (retry_delay_seconds lc) wk (int n) 0
                                       r w))) =
                submitted (trace w) @ replicate n wk"
    if fails: "\<forall>k<n. error_of (respond e (tick w + k) wk) \<noteq> None"
      and fresh: "attempt_count r = 0" for wk r
    using retry_loop_exn_exhausted [OF assms(1) assms(3) fails fresh] by blast
  show ?thesis
  proof (intro conjI impI)
    assume f: "\<forall>k<n. error_of (respond e (tick w + k) (ScriptFile script_path)) \<noteq> None"
    have "attempt_count \<lparr>subject = Script script_path, description = descr,
             status = PENDING, start_time = now w, end_time = None,
             execution_time_seconds = 0, attempt_count = 0, error_message = None,
             row_count = 0\<rparr> = 0"
      by simp
    from loop [OF f this]
    show "case execute_sql_script_exn e lc script_path descr max_retries w of
            (returned, w') \<Rightarrow>
              (\<exists>r. returned = Inr r \<and> status r = FAILED \<and> attempt_count r = n \<and>
                   error_message r =
                     error_of (respond e (tick w + (n - 1)) (ScriptFile script_path))) \<and>
              tick w' = tick w + n \<and>
              submitted (trace w') =
                submitted (trace w) @ replicate n (ScriptFile script_path)"
      by (simp add: execute_sql_script_exn_def assms(2) case_prod_beta)
  next
    assume f: "\<forall>k<n. error_of (respond e (tick w + k) (InlineSql sql_command)) \<noteq> None"
    have "attempt_count \<lparr>subject = Command (display_command sql_command),
             description = descr, status = PENDING, start_time = now w, end_time = None,
             execution_time_seconds = 0, attempt_count = 0, error_message = None,
             row_count = 0\<rparr> = 0"
      by simp
    from loop [OF f this]
    show "case execute_sql_command_exn e lc sql_command descr max_retries w of
            (returned, w') \<Rightarrow>
              (\<exists>r. returned = Inr r \<and> status r = FAILED \<and> attempt_count r = n \<and>
                   error_message r =
                     error_of (respond e (tick w + (n - 1)) (InlineSql sql_command))) \<and>
              tick w' = tick w + n \<and>
              submitted (trace w') =
                submitted (trace w) @ replicate n (InlineSql sql_command)"
      by (simp add: execute_sql_command_exn_def assms(2) case_prod_beta)
  qed
qed

lemma fallback_loaded_sleeps_return: "sleeps_return (retry_delay_seconds (fallback_loaded 30)) 3"
  by (simp add: sleeps_return_def fallback_loaded_def sleep_limit_def)

theorem permanent_failure_exhausts_retries_witness:
  "(\<exists>r. fst (execute_sql_script_exn (failing_env ''down'') (fallback_loaded 30)
              ''../sql/01_schema_setup.sql'' ''Setup'' None initial_world) = Inr r
        \<and> status r = FAILED \<and> attempt_count r = 3 \<and> error_message r = Some ''down'')
   \<and> tick (snd (execute_sql_command_exn (failing_env ''down'') (fallback_loaded 30)
              ''SELECT 1'' ''Setup'' None initial_world)) = 3"
proof -
  have n: "retries_or_default (typed (fallback_loaded 30)) None = int 3"
    by (simp add: retries_or_default_def fallback_loaded_def fallback_config_def)
  have s: "sleeps_return (retry_delay_seconds (fallback_loaded 30)) (int 3)"
    using fallback_loaded_sleeps_return by simp
  have i: "tick initial_world = 0" by (simp add: initial_world_def)
  note T = permanent_failure_exhausts_retries [where n = 3 and lc = "fallback_loaded 30"
      and max_retries = None and e = "failing_env ''down''" and w = initial_world
      and script_path = "''../sql/01_schema_setup.sql''" and descr = "''Setup''"
      and sql_command = "''SELECT 1''", OF _ n s, unfolded case_prod_beta]
  from T show ?thesis
    by (simp add: failing_env_def i)
qed

text \<open>
  With a delay of \<open>- 5\<close> seconds and three retries the executor does not return:
  after the first failed attempt \<^verbatim>\<open>time.sleep(-5)\<close> raises a \<^verbatim>\<open>ValueError\<close> out
  of the \<^verbatim>\<open>except\<close> branch, and one unit of work has been submitted, not three as
  claim C3 has it.
\<close>

theorem negative_delay_raises_after_one_attempt:
  "execute_sql_script_exn (failing_env ''down'') (fallback_loaded (- 5))
     ''../sql/01_schema_setup.sql'' ''Setup'' None initial_world =
   (Inl ValueError,
    \<lparr>tick = 1, clock = 0,
     trace = [Exec (ScriptFile ''../sql/01_schema_setup.sql'') (Raised ''down'')]\<rparr>)"
proof -
  have n: "retries_or_default (typed (fallback_loaded (- 5))) None = 3"
    by (simp add: retries_or_default_def fallback_loaded_def fallback_config_def)
  have lt: "int 0 < 3 - 1" by simp
  have err: "error_of (respond (failing_env ''down'') (tick initial_world)
               (ScriptFile ''../sql/01_schema_setup.sql'')) = Some ''down''"
    by (simp add: failing_env_def)
  have d: "retry_delay_seconds (fallback_loaded (- 5)) = - 5"
    by (simp add: fallback_loaded_def)
  show ?thesis
    unfolding execute_sql_script_exn_def Let_def n d retry_loop_exn_retry [OF lt err]
    by (simp add: time_sleep_def sleep_limit_def initial_world_def failing_env_def)
qed

subsection \<open>A unit of work that succeeds after some failures\<close>

text \<open>
  Claim C5. Let the attempts with the indices \<open>0, \<dots>, k - 1\<close> fail and the attempt with
  the index \<open>k\<close> succeed, where \<open>k + 1\<close> is at most the number of retries. Then the
  executor returns status \<^verbatim>\<open>SUCCESS\<close> with \<open>attempt_count = k + 1\<close> and the rows
  of that attempt; \<open>k + 1\<close> units of work were submitted and the successful one is the
  last event of the run, so nothing is attempted after it.
\<close>

theorem first_success_ends_the_retries:
  assumes "int k < retries_or_default cfg max_retries"
  shows "((\<forall>j<k. error_of (respond e (tick w + j) (ScriptFile script_path)) \<noteq> None) \<and>
          error_of (respond e (tick w + k) (ScriptFile script_path)) = None \<longrightarrow>
            (case execute_sql_script e cfg script_path descr max_retries w of
               (r, w') \<Rightarrow>
                 status r = SUCCESS \<and> attempt_count r = k + 1 \<and>
                 row_count r = rows_of (respond e (tick w + k) (ScriptFile script_path)) \<and>
                 tick w' = tick w + (k + 1) \<and>
                 submitted (trace w') =
                   submitted (trace w) @ replicate (k + 1) (ScriptFile script_path) \<and>
                 last (trace w') =
                   Exec (ScriptFile script_path)
                     (respond e (tick w + k) (ScriptFile script_path))))
       \<and> ((\<forall>j<k. error_of (respond e (tick w + j) (InlineSql sql_command)) \<noteq> None) \<and>
          error_of (respond e (tick w + k) (InlineSql sql_command)) = None \<longrightarrow>
            (case execute_sql_command e cfg sql_command descr max_retries w of
               (r, w') \<Rightarrow>
                 status r = SUCCESS \<and> attempt_count r = k + 1 \<and>
                 row_count r = rows_of (respond e (tick w + k) (InlineSql sql_command)) \<and>
                 tick w' = tick w + (k + 1) \<and>
                 submitted (trace w') =
                   submitted (trace w) @ replicate (k + 1) (InlineSql sql_command) \<and>
                 last (trace w') =
                   Exec (InlineSql sql_command)
                     (respond e (tick w + k) (InlineSql sql_command))))"
proof -
  let ?n = "retries_or_default cfg max_retries"
  have loop: "status (fst (retry_loop e cfg wk ?n 0 r w)) = SUCCESS
            \<and> attempt_count (fst (retry_loop e cfg wk ?n 0 r w)) = k + 1
            \<and> row_count (fst (retry_loop e cfg wk ?n 0 r w)) = rows_of (respond e (tick w + k) wk)
            \<and> tick (snd (retry_loop e cfg wk ?n 0 r w)) = tick w + (k + 1)
            \<and> submitted (trace (snd (retry_loop e cfg wk ?n 0 r w))) =
                submitted (trace w) @ replicate (k + 1) wk
            \<and> last (trace (snd (retry_loop e cfg wk ?n 0 r w))) =
                Exec wk (respond e (tick w + k) wk)"
    if fails: "\<forall>j<k. error_of (respond e (tick w + j) wk) \<noteq> None"
      and ok: "error_of (respond e (tick w + k) wk) = None"
      and fresh: "attempt_count r = 0" for wk r
  proof -
    have "int (0 + k) < ?n" using assms by simp
    note F = retry_loop_first_success [OF fails ok this, of cfg r]
    note R = retry_loop_run [OF fresh, of e cfg wk ?n w]
    have ne: "attempt_events e cfg wk (tick w) 0 (Suc k) \<noteq> []"
      by (simp add: attempt_events_def upt_conv_Cons del: upt_Suc)
    have "last (attempt_events e cfg wk (tick w) 0 (Suc k)) =
            Exec wk (respond e (tick w + k) wk)"
      using last_attempt_events [of "Suc k" e cfg wk "tick w" 0] by simp
    with F R ne show ?thesis
      by (simp add: submitted_append submitted_attempt_events)
  qed
  show ?thesis
    by (simp add: execute_sql_script_def execute_sql_command_def loop case_prod_beta)
qed

theorem first_success_ends_the_retries_witness:
  "status (fst (execute_sql_script flaky_env (fallback_config 30)
                  ''../sql/02_core_tables.sql'' ''Tables'' None initial_world)) = SUCCESS
   \<and> attempt_count (fst (execute_sql_script flaky_env (fallback_config 30)
                  ''../sql/02_core_tables.sql'' ''Tables'' None initial_world)) = 3
   \<and> row_count (fst (execute_sql_script flaky_env (fallback_config 30)
                  ''../sql/02_core_tables.sql'' ''Tables'' None initial_world)) = 7
   \<and> status (fst (execute_sql_command flaky_env (fallback_config 30)
                  ''SELECT 1'' ''Probe'' (Some 5) initial_world)) = SUCCESS
   \<and> attempt_count (fst (execute_sql_command flaky_env (fallback_config 30)
                  ''SELECT 1'' ''Probe'' (Some 5) initial_world)) = 3
   \<and> tick (snd (execute_sql_command flaky_env (fallback_config 30)
                  ''SELECT 1'' ''Probe'' (Some 5) initial_world)) = 3"
  using first_success_ends_the_retries [of 2 "fallback_config 30" None flaky_env
          initial_world "''../sql/02_core_tables.sql''" "''Tables''" "''SELECT 1''"]
        first_success_ends_the_retries [of 2 "fallback_config 30" "Some 5" flaky_env
          initial_world "''../sql/02_core_tables.sql''" "''Probe''" "''SELECT 1''"]
  by (simp add: retries_or_default_def fallback_config_def flaky_env_def initial_world_def
        case_prod_beta)

subsection \<open>No retries at all\<close>

text \<open>
  Claim C10. When the number of retries, given or taken from the configuration, is
  zero or negative, the loop makes no attempt and both executors return the outcome
  as it was initialised: status \<^verbatim>\<open>PENDING\<close>, \<open>attempt_count = 0\<close>, no end time, no
  error message, \<open>row_count = 0\<close>. The world is unchanged.
\<close>

theorem no_attempt_without_retries:
  assumes "retries_or_default cfg max_retries \<le> 0"
  shows "execute_sql_script e cfg script_path descr max_retries w =
           (\<lparr>subject = Script script_path, description = descr, status = PENDING,
             start_time = now w, end_time = None, execution_time_seconds = 0,
             attempt_count = 0, error_message = None, row_count = 0\<rparr>, w)
       \<and> execute_sql_command e cfg sql_command descr max_retries w =
           (\<lparr>subject = Command (display_command sql_command), description = descr,
             status = PENDING, start_time = now w, end_time = None,
             execution_time_seconds = 0, attempt_count = 0, error_message = None,
             row_count = 0\<rparr>, w)"
  using assms
  by (simp add: execute_sql_script_def execute_sql_command_def retry_loop_done)

theorem no_attempt_without_retries_witness:
  "status (fst (execute_sql_script (working_env 1) (fallback_config 30)
                  ''../sql/01_schema_setup.sql'' ''Setup'' (Some 0) initial_world)) = PENDING
   \<and> attempt_count (fst (execute_sql_script (working_env 1) (fallback_config 30)
                  ''../sql/01_schema_setup.sql'' ''Setup'' (Some 0) initial_world)) = 0
   \<and> snd (execute_sql_script (working_env 1) (fallback_config 30)
             ''../sql/01_schema_setup.sql'' ''Setup'' (Some 0) initial_world) = initial_world
   \<and> status (fst (execute_sql_command (working_env 1) (fallback_config 30)
                  ''SELECT 1'' ''Probe'' (Some (- 1)) initial_world)) = PENDING
   \<and> end_time (fst (execute_sql_command (working_env 1) (fallback_config 30)
                  ''SELECT 1'' ''Probe'' (Some (- 1)) initial_world)) = None"
  using no_attempt_without_retries [of "fallback_config 30" "Some 0" "working_env 1"
          "''../sql/01_schema_setup.sql''" "''Setup''" initial_world "''SELECT 1''"]
        no_attempt_without_retries [of "fallback_config 30" "Some (- 1)" "working_env 1"
          "''../sql/01_schema_setup.sql''" "''Probe''" initial_world "''SELECT 1''"]
  by (simp add: retries_or_default_def)

subsection \<open>The backoff\<close>

lemma retry_loop_backoff:
  assumes fresh: "attempt_count r = 0"
  shows "(let (r', w') = retry_loop e cfg wk n 0 r w;
              new = drop (length (trace w)) (trace w');
              sleeps = sleep_lengths new
          in new = concat (map (\<lambda>k. Exec wk (respond e (tick w + k) wk) #
                                   (if Suc k < attempt_count r'
                                    then [Sleep (RETRY_DELAY_SECONDS cfg * 2 ^ k)] else []))
                             [0..<attempt_count r'])
           \<and> (\<forall>k. Suc k < attempt_count r' \<longrightarrow> error_of (respond e (tick w + k) wk) \<noteq> None)
           \<and> sleeps = map (\<lambda>k. RETRY_DELAY_SECONDS cfg * 2 ^ k) [0..<attempt_count r' - 1]
           \<and> sorted_wrt (\<le>) sleeps
           \<and> (0 < RETRY_DELAY_SECONDS cfg \<longrightarrow> sorted_wrt (<) sleeps))"
proof -
  define L where "L = retry_loop e cfg wk n 0 r w"
  define m where "m = attempt_count (fst L)"
  note R = retry_loop_run [OF fresh, of e cfg wk n w, folded L_def, folded m_def]
  have new: "drop (length (trace w)) (trace (snd L)) = attempt_events e cfg wk (tick w) 0 m"
    using R by simp
  have sl: "sleep_lengths (attempt_events e cfg wk (tick w) 0 m) =
              map (\<lambda>k. RETRY_DELAY_SECONDS cfg * 2 ^ k) [0..<m - 1]"
    by (simp add: sleep_lengths_attempt_events)
  have ev: "attempt_events e cfg wk (tick w) 0 m =
              concat (map (\<lambda>k. Exec wk (respond e (tick w + k) wk) #
                                (if Suc k < m
                                 then [Sleep (RETRY_DELAY_SECONDS cfg * 2 ^ k)] else []))
                          [0..<m])"
    by (simp add: attempt_events_def cong: if_cong)
  show ?thesis
    unfolding L_def [symmetric] Let_def case_prod_beta m_def [symmetric] new sl
    using R ev backoff_sorted [of "RETRY_DELAY_SECONDS cfg" "m - 1"]
      backoff_strict [of "RETRY_DELAY_SECONDS cfg" "m - 1"]
    by blast
qed

text \<open>
  Claim C4, as amended. For either executor and any environment, the events of a run
  are its attempts in order, the attempt with the index \<open>k\<close> followed by one sleep of
  exactly \<^verbatim>\<open>RETRY_DELAY_SECONDS * 2 ** k\<close> seconds unless it is the last attempt of the
  run, after which nothing follows. Every attempt that is followed by a sleep has
  failed. The lengths of the sleeps never decrease, and they increase strictly when
  \<^verbatim>\<open>RETRY_DELAY_SECONDS\<close> is positive.
\<close>

theorem backoff_between_attempts:
  "(let wk = ScriptFile script_path;
        (r, w') = execute_sql_script e cfg script_path descr max_retries w;
        new = drop (length (trace w)) (trace w');
        sleeps = sleep_lengths new
    in new = concat (map (\<lambda>k. Exec wk (respond e (tick w + k) wk) #
                             (if Suc k < attempt_count r
                              then [Sleep (RETRY_DELAY_SECONDS cfg * 2 ^ k)] else []))
                       [0..<attempt_count r])
     \<and> (\<forall>k. Suc k < attempt_count r \<longrightarrow> error_of (respond e (tick w + k) wk) \<noteq> None)
     \<and> sleeps = map (\<lambda>k. RETRY_DELAY_SECONDS cfg * 2 ^ k) [0..<attempt_count r - 1]
     \<and> sorted_wrt (\<le>) sleeps
     \<and> (0 < RETRY_DELAY_SECONDS cfg \<longrightarrow> sorted_wrt (<) sleeps))
 \<and> (let wk = InlineSql sql_command;
        (r, w') = execute_sql_command e cfg sql_command descr max_retries w;
        new = drop (length (trace w)) (trace w');
        sleeps = sleep_lengths new
    in new = concat (map (\<lambda>k. Exec wk (respond e (tick w + k) wk) #
                             (if Suc k < attempt_count r
                              then [Sleep (RETRY_DELAY_SECONDS cfg * 2 ^ k)] else []))
                       [0..<attempt_count r])
     \<and> (\<forall>k. Suc k < attempt_count r \<longrightarrow> error_of (respond e (tick w + k) wk) \<noteq> None)
     \<and> sleeps = map (\<lambda>k. RETRY_DELAY_SECONDS cfg * 2 ^ k) [0..<attempt_count r - 1]
     \<and> sorted_wrt (\<le>) sleeps
     \<and> (0 < RETRY_DELAY_SECONDS cfg \<longrightarrow> sorted_wrt (<) sleeps))"
proof
  show "let wk = ScriptFile script_path;
        (r, w') = execute_sql_script e cfg script_path descr max_retries w;
        new = drop (length (trace w)) (trace w');
        sleeps = sleep_lengths new
    in new = concat (map (\<lambda>k. Exec wk (respond e (tick w + k) wk) #
                             (if Suc k < attempt_count r
                              then [Sleep (RETRY_DELAY_SECONDS cfg * 2 ^ k)] else []))
                       [0..<attempt_count r])
     \<and> (\<forall>k. Suc k < attempt_count r \<longrightarrow> error_of (respond e (tick w + k) wk) \<noteq> None)
     \<and> sleeps = map (\<lambda>k. RETRY_DELAY_SECONDS cfg * 2 ^ k) [0..<attempt_count r - 1]
     \<and> sorted_wrt (\<le>) sleeps
     \<and> (0 < RETRY_DELAY_SECONDS cfg \<longrightarrow> sorted_wrt (<) sleeps)"
    unfolding execute_sql_script_def Let_def
    using retry_loop_backoff [unfolded Let_def] by simp
  show "let wk = InlineSql sql_command;
        (r, w') = execute_sql_command e cfg sql_command descr max_retries w;
        new = drop (length (trace w)) (trace w');
        sleeps = sleep_lengths new
    in new = concat (map (\<lambda>k. Exec wk (respond e (tick w + k) wk) #
                             (if Suc k < attempt_count r
                              then [Sleep (RETRY_DELAY_SECONDS cfg * 2 ^ k)] else []))
                       [0..<attempt_count r])
     \<and> (\<forall>k. Suc k < attempt_count r \<longrightarrow> error_of (respond e (tick w + k) wk) \<noteq> None)
     \<and> sleeps = map (\<lambda>k. RETRY_DELAY_SECONDS cfg * 2 ^ k) [0..<attempt_count r - 1]
     \<and> sorted_wrt (\<le>) sleeps
     \<and> (0 < RETRY_DELAY_SECONDS cfg \<longrightarrow> sorted_wrt (<) sleeps)"
    unfolding execute_sql_command_def Let_def
    using retry_loop_backoff [unfolded Let_def] by simp
qed

theorem backoff_between_attempts_witness:
  "sleep_lengths (trace (snd (execute_sql_script (failing_env ''down'') (fallback_config 30)
       ''../sql/01_schema_setup.sql'' ''Setup'' (Some 4) initial_world))) = [30, 60, 120]
   \<and> sorted_wrt (<) (sleep_lengths (trace (snd (execute_sql_command (failing_env ''down'')
       (fallback_config 30) ''SELECT 1'' ''Setup'' (Some 4) initial_world))))"
proof -
  have n: "retries_or_default (fallback_config 30) (Some 4) = int 4"
    by (simp add: retries_or_default_def)
  have s: "attempt_count (fst (execute_sql_script (failing_env ''down'') (fallback_config 30)
       ''../sql/01_schema_setup.sql'' ''Setup'' (Some 4) initial_world)) = 4"
    using retry_loop_all_fail [of 4 "failing_env ''down''" initial_world
            "ScriptFile ''../sql/01_schema_setup.sql''" 0 4 "fallback_config 30"]
    by (simp add: execute_sql_script_def n failing_env_def)
  have d: "RETRY_DELAY_SECONDS (fallback_config 30) = 30"
    by (simp add: fallback_config_def)
  have u: "[0..<3] = [0, 1, 2]" by (simp add: upt_conv_Cons)
  have i: "trace initial_world = []"
    by (simp add: initial_world_def)
  note T = backoff_between_attempts [of "''../sql/01_schema_setup.sql''" "failing_env ''down''"
            "fallback_config 30" "''Setup''" "Some 4" initial_world "''SELECT 1''",
            unfolded Let_def case_prod_beta i d s list.size drop_0]
  from T have a: "sleep_lengths (trace (snd (execute_sql_script (failing_env ''down'')
       (fallback_config 30) ''../sql/01_schema_setup.sql'' ''Setup'' (Some 4) initial_world))) =
       map (\<lambda>k. 30 * 2 ^ k) [0..<4 - 1]"
    by blast
  from T have "0 < (30::nat) \<longrightarrow> sorted_wrt (<) (sleep_lengths (trace (snd
       (execute_sql_command (failing_env ''down'') (fallback_config 30) ''SELECT 1'' ''Setup''
       (Some 4) initial_world))))"
    by blast
  then have b: "sorted_wrt (<) (sleep_lengths (trace (snd (execute_sql_command
       (failing_env ''down'') (fallback_config 30) ''SELECT 1'' ''Setup'' (Some 4)
       initial_world))))"
    by simp
  from a b show ?thesis by (simp add: u)
qed

text \<open>
  With a delay of zero seconds the sleeps between three failing attempts are
  \<open>0\<close> and \<open>0\<close>: the delays are not strictly increasing, as claim C4 has it.
\<close>

theorem zero_delay_never_grows:
  "sleep_lengths (trace (snd (execute_sql_command (failing_env ''down'') (fallback_config 0)
       ''SELECT 1'' ''Probe'' None initial_world))) = [0, 0]
   \<and> \<not> sorted_wrt (<) (sleep_lengths (trace (snd (execute_sql_command (failing_env ''down'')
       (fallback_config 0) ''SELECT 1'' ''Probe'' None initial_world))))"
proof -
  let ?run = "execute_sql_command (failing_env ''down'') (fallback_config 0)
                ''SELECT 1'' ''Probe'' None initial_world"
  let ?r = "\<lparr>subject = Command (display_command ''SELECT 1''), description = ''Probe'',
             status = PENDING, start_time = now initial_world, end_time = None,
             execution_time_seconds = 0, attempt_count = 0, error_message = None,
             row_count = 0\<rparr>"
  have n: "retries_or_default (fallback_config 0) None = int 3"
    by (simp add: retries_or_default_def fallback_config_def)
  have run: "?run = retry_loop (failing_env ''down'') (fallback_config 0)
                      (InlineSql ''SELECT 1'') (int 3) 0 ?r initial_world"
    by (simp add: execute_sql_command_def n)
  have count: "attempt_count (fst ?run) = 3"
    unfolding run
    using retry_loop_all_fail [of 3 "failing_env ''down''" initial_world
            "InlineSql ''SELECT 1''" 0 "int 3" "fallback_config 0" ?r]
    by (simp add: failing_env_def)
  have tr: "trace (snd ?run) =
              trace initial_world @
              attempt_events (failing_env ''down'') (fallback_config 0) (InlineSql ''SELECT 1'')
                (tick initial_world) 0 3"
    using retry_loop_run [of ?r "failing_env ''down''" "fallback_config 0"
            "InlineSql ''SELECT 1''" "int 3" initial_world] count
    unfolding run by simp
  have u: "[0..<2] = [0, 1]" by (simp add: upt_conv_Cons)
  have "sleep_lengths (trace (snd ?run)) = [0, 0]"
    unfolding tr
    by (simp add: sleep_lengths_append sleep_lengths_attempt_events initial_world_def
          fallback_config_def u)
  then show ?thesis by simp
qed

subsection \<open>The command as shown and as run\<close>

text \<open>
  Claim C9, as amended. The \<^verbatim>\<open>"command"\<close> entry of the outcome of
  \<^verbatim>\<open>execute_sql_command\<close> is the command itself when it has at most 100 characters,
  and otherwise its first 100 characters followed by three dots. Every statement the
  call submits is the whole command.
\<close>

theorem command_shown_cut_but_run_whole:
  "case execute_sql_command e cfg sql_command descr max_retries w of
     (r, w') \<Rightarrow>
       subject r = Command (if length sql_command > 100
                            then take 100 sql_command @ ''...'' else sql_command)
       \<and> submitted (trace w') =
           submitted (trace w) @ replicate (attempt_count r) (InlineSql sql_command)"
proof -
  let ?r = "\<lparr>subject = Command (display_command sql_command), description = descr,
             status = PENDING, start_time = now w, end_time = None,
             execution_time_seconds = 0, attempt_count = 0, error_message = None,
             row_count = 0\<rparr>"
  let ?n = "retries_or_default cfg max_retries"
  have fresh: "attempt_count ?r = 0" by simp
  note R = retry_loop_run [OF fresh, of e cfg "InlineSql sql_command" ?n w]
  note S = retry_loop_subject [of e cfg "InlineSql sql_command" ?n 0 ?r w]
  from R S show ?thesis
    by (simp add: execute_sql_command_def case_prod_beta display_command_def
          submitted_append submitted_attempt_events)
qed

theorem command_shown_cut_but_run_whole_witness:
  "subject (fst (execute_sql_command (working_env 0) (fallback_config 30)
             (replicate 101 (CHR ''x'')) ''Probe'' None initial_world)) =
     Command (replicate 100 (CHR ''x'') @ ''...'')
   \<and> submitted (trace (snd (execute_sql_command (working_env 0) (fallback_config 30)
             (replicate 101 (CHR ''x'')) ''Probe'' None initial_world))) =
     [InlineSql (replicate 101 (CHR ''x''))]
   \<and> subject (fst (execute_sql_command (working_env 0) (fallback_config 30)
             ''SELECT 1'' ''Probe'' None initial_world)) = Command ''SELECT 1''"
proof -
  have n: "int 0 < retries_or_default (fallback_config 30) None"
    by (simp add: retries_or_default_def fallback_config_def)
  have c: "attempt_count (fst (execute_sql_command (working_env 0) (fallback_config 30)
             (replicate 101 (CHR ''x'')) ''Probe'' None initial_world)) = 1"
    using retry_loop_first_success [of 0 "working_env 0" initial_world
            "InlineSql (replicate 101 (CHR ''x''))" 0
            "retries_or_default (fallback_config 30) None" "fallback_config 30"] n
    by (simp add: execute_sql_command_def working_env_def)
  have i: "trace initial_world = []" by (simp add: initial_world_def)
  show ?thesis
    using command_shown_cut_but_run_whole [where e = "working_env 0"
            and cfg = "fallback_config 30" and sql_command = "replicate 101 (CHR ''x'')"
            and descr = "''Probe''" and max_retries = None and w = initial_world]
          command_shown_cut_but_run_whole [where e = "working_env 0"
            and cfg = "fallback_config 30" and sql_command = "''SELECT 1''"
            and descr = "''Probe''" and max_retries = None and w = initial_world]
    by (simp add: case_prod_beta c i)
qed

text \<open>
  A command of 101 characters is shown with 103 characters, not cut to its first
  100 as claim C9 has it.
\<close>

theorem long_command_shown_with_dots:
  "subject (fst (execute_sql_command (working_env 0) (fallback_config 30)
             (replicate 101 (CHR ''x'')) ''Probe'' None initial_world)) \<noteq>
     Command (take 100 (replicate 101 (CHR ''x'')))"
proof -
  have "subject (fst (execute_sql_command (working_env 0) (fallback_config 30)
             (replicate 101 (CHR ''x'')) ''Probe'' None initial_world)) =
        Command (display_command (replicate 101 (CHR ''x'')))"
    using retry_loop_subject [of "working_env 0" "fallback_config 30"
            "InlineSql (replicate 101 (CHR ''x''))"]
    by (simp add: execute_sql_command_def)
  moreover have "display_command (replicate 101 (CHR ''x'')) \<noteq>
                   take 100 (replicate 101 (CHR ''x''))"
  proof
    assume "display_command (replicate 101 (CHR ''x'')) = take 100 (replicate 101 (CHR ''x''))"
    then have "length (display_command (replicate 101 (CHR ''x''))) =
               length (take 100 (replicate 101 (CHR ''x'')))"
      by simp
    then show False by (simp add: display_command_def)
  qed
  ultimately show ?thesis by simp
qed

section \<open>Properties of the validator\<close>

lemma check_tables_run:
  "check_tables e ts acc w =
     (acc @ map (\<lambda>i. access_outcome (ts ! i)
                        (respond e (tick w + i) (InlineSql (access_query (ts ! i)))))
                [0..<length ts],
      w\<lparr>tick := tick w + length ts,
        trace := trace w @
                 map (\<lambda>i. Exec (InlineSql (access_query (ts ! i)))
                              (respond e (tick w + i) (InlineSql (access_query (ts ! i)))))
                     [0..<length ts]\<rparr>)"
proof (induction ts arbitrary: acc w)
  case Nil
  show ?case by simp
next
  case (Cons t ts)
  show ?case
    by (simp add: perform_def Let_def Cons.IH map_upt_Suc del: upt_Suc)
qed

lemma map_over_indices: "map (\<lambda>i. f (xs ! i)) [0..<length xs] = map f xs"
  by (rule nth_equalityI) simp_all

lemma submitted_execs:
  "submitted (map (\<lambda>i. Exec (f i) (g i)) xs) = map f xs"
  by (induction xs) simp_all

text \<open>
  Claim C8. \<^verbatim>\<open>check_system_table_access\<close> returns one dictionary for each required
  table, in the order of the tables. The query of every table is submitted whatever
  the answers to the earlier ones were, and the dictionary of a table is accessible
  exactly when the answer to the query of that table is no error, and carries the
  error of that answer.
\<close>

theorem one_outcome_per_required_table:
  "case check_system_table_access e cfg w of
     (access_results, w') \<Rightarrow>
       length access_results = length (required_tables cfg)
       \<and> map table access_results = required_tables cfg
       \<and> (\<forall>i<length (required_tables cfg).
            accessible (access_results ! i) =
              (error_of (respond e (tick w + i)
                           (InlineSql (access_query (required_tables cfg ! i)))) = None)
            \<and> access_error (access_results ! i) =
                error_of (respond e (tick w + i)
                            (InlineSql (access_query (required_tables cfg ! i))))
            \<and> access_status (access_results ! i) =
                (if accessible (access_results ! i) then SUCCESS else FAILED))
       \<and> submitted (trace w') =
           submitted (trace w) @
           map (\<lambda>tbl. InlineSql (access_query tbl)) (required_tables cfg)"
proof -
  let ?ts = "required_tables cfg"
  have tbl: "table (access_outcome t r) = t" for t r
    by (simp add: access_outcome_def split: option.split)
  have acc: "accessible (access_outcome t r) = (error_of r = None)" for t r
    by (simp add: access_outcome_def split: option.split)
  have err: "access_error (access_outcome t r) = error_of r" for t r
    by (simp add: access_outcome_def split: option.split)
  have st: "access_status (access_outcome t r) = (if error_of r = None then SUCCESS else FAILED)"
    for t r
    by (simp add: access_outcome_def split: option.split)
  have names: "map ((!) ?ts) [0..<length ?ts] = ?ts"
    by (rule map_nth)
  have subm: "map (\<lambda>i. InlineSql (access_query (?ts ! i))) [0..<length ?ts] =
              map (\<lambda>tbl. InlineSql (access_query tbl)) ?ts"
    by (rule map_over_indices)
  show ?thesis
    by (simp add: check_system_table_access_def check_tables_run comp_def tbl acc err st
          submitted_append submitted_execs names subm)
qed

theorem one_outcome_per_required_table_witness:
  "length (fst (check_system_table_access
       (broken_env [InlineSql (access_query ''system.billing.usage'')])
       (fallback_config 30) initial_world)) = 5
   \<and> accessible (fst (check_system_table_access
       (broken_env [InlineSql (access_query ''system.billing.usage'')])
       (fallback_config 30) initial_world) ! 1) = False
   \<and> accessible (fst (check_system_table_access
       (broken_env [InlineSql (access_query ''system.billing.usage'')])
       (fallback_config 30) initial_world) ! 2) = True"
proof -
  let ?e = "broken_env [InlineSql (access_query ''system.billing.usage'')]"
  have ts: "required_tables (fallback_config 30) = default_required_tables"
    by (simp add: required_tables_def fallback_config_def)
  note T = one_outcome_per_required_table [where e = ?e and cfg = "fallback_config 30"
             and w = initial_world, unfolded case_prod_beta ts]
  from T have len: "length (fst (check_system_table_access ?e (fallback_config 30)
                      initial_world)) = length default_required_tables"
    by blast
  from T have each: "\<forall>i<length default_required_tables.
      accessible (fst (check_system_table_access ?e (fallback_config 30) initial_world) ! i) =
        (error_of (respond ?e (tick initial_world + i)
                     (InlineSql (access_query (default_required_tables ! i)))) = None)"
    by blast
  have one: "1 < length default_required_tables" and two: "2 < length default_required_tables"
    by (simp_all add: default_required_tables_def)
  from each one have a: "accessible (fst (check_system_table_access ?e (fallback_config 30)
                            initial_world) ! 1) = False"
    by (simp add: default_required_tables_def broken_env_def access_query_def)
  from each two have b: "accessible (fst (check_system_table_access ?e (fallback_config 30)
                            initial_world) ! 2) = True"
    by (simp add: default_required_tables_def broken_env_def access_query_def)
  from len a b show ?thesis by (simp add: default_required_tables_def)
qed

section \<open>Properties of the pipeline\<close>

lemma run_steps_complete:
  "run_steps e cfg steps acc w = ((None, rs), w') \<Longrightarrow>
     length rs = length acc + length steps
     \<and> (\<forall>i<length steps. required (steps ! i) \<longrightarrow> status (rs ! (length acc + i)) \<noteq> FAILED)
     \<and> (\<forall>i<length acc. rs ! i = acc ! i)"
proof (induction steps arbitrary: acc w)
  case Nil
  then show ?case by simp
next
  case (Cons st steps)
  obtain result w1 where ex:
    "execute_sql_script e cfg (script st) (step_description st) None w = (result, w1)"
    by (cases "execute_sql_script e cfg (script st) (step_description st) None w")
  from Cons.prems ex have go: "\<not> (required st \<and> status result = FAILED)"
    and rec: "run_steps e cfg steps (acc @ [result]) w1 = ((None, rs), w')"
    by (auto simp: Let_def split: if_splits)
  note IH = Cons.IH [OF rec]
  from IH have len: "length rs = length acc + length (st # steps)" by simp
  from IH have old: "\<forall>i<length (acc @ [result]). rs ! i = (acc @ [result]) ! i" by blast
  then have here: "rs ! length acc = result" by (metis length_append_singleton lessI nth_append_length)
  have keep: "\<forall>i<length acc. rs ! i = acc ! i"
  proof (intro allI impI)
    fix i assume i: "i < length acc"
    then have "rs ! i = (acc @ [result]) ! i" using old by simp
    then show "rs ! i = acc ! i" using i by (simp add: nth_append)
  qed
  have req: "\<forall>i<length (st # steps). required ((st # steps) ! i) \<longrightarrow>
               status (rs ! (length acc + i)) \<noteq> FAILED"
  proof (intro allI impI)
    fix i assume i: "i < length (st # steps)" and r: "required ((st # steps) ! i)"
    show "status (rs ! (length acc + i)) \<noteq> FAILED"
    proof (cases i)
      case 0
      then show ?thesis using go r here by simp
    next
      case (Suc j)
      with i r have "j < length steps" "required (steps ! j)" by simp_all
      with IH have "status (rs ! (length (acc @ [result]) + j)) \<noteq> FAILED" by blast
      then show ?thesis using Suc by simp
    qed
  qed
  from len req keep show ?case by blast
qed

text \<open>
  Claim C6. A summary without the \<^verbatim>\<open>"error"\<close> key is the summary of a run that
  reached the end of the step list: only the early return writes that key. For such a
  run the status is \<^verbatim>\<open>SUCCESS\<close> when no outcome in the result list is \<^verbatim>\<open>FAILED\<close>,
  \<^verbatim>\<open>PARTIAL_SUCCESS\<close> when some outcome is \<^verbatim>\<open>FAILED\<close> and some is \<^verbatim>\<open>SUCCESS\<close>, and
  \<^verbatim>\<open>FAILED\<close> otherwise. Equivalently the status is \<^verbatim>\<open>PARTIAL_SUCCESS\<close> exactly when a
  step failed, no step of the list that failed is a required one, and a step
  succeeded. The result list holds one outcome for each step of the list and one for
  the incremental call, which is the only step that can have failed.
\<close>

theorem completed_pipeline_status:
  "case execute_pipeline e cfg w of
     (summary, w') \<Rightarrow>
       summary_error summary = None \<longrightarrow>
         (let failed = length (filter (\<lambda>r. status r = FAILED) (results summary));
              succeeded = length (filter (\<lambda>r. status r = SUCCESS) (results summary))
          in summary_status summary =
               (if failed = 0 then SUCCESS
                else if succeeded > 0 then PARTIAL_SUCCESS else FAILED)
           \<and> (summary_status summary = PARTIAL_SUCCESS \<longleftrightarrow>
                (\<exists>r\<in>set (results summary). status r = FAILED)
                \<and> (\<forall>i<length pipeline_steps.
                      status (results summary ! i) = FAILED \<longrightarrow> \<not> required (pipeline_steps ! i))
                \<and> (\<exists>r\<in>set (results summary). status r = SUCCESS))
           \<and> length (results summary) = length pipeline_steps + 1
           \<and> steps_completed summary = succeeded
           \<and> steps_failed summary = Some failed)"
proof -
  obtain fs rs w1 where run:
    "run_steps e cfg pipeline_steps [] (send_notification SEV_INFO w) = ((fs, rs), w1)"
    by (metis surj_pair)
  show ?thesis
  proof (cases fs)
    case (Some st)
    with run show ?thesis by (simp add: execute_pipeline_def Let_def)
  next
    case None
    note C = run_steps_complete [OF run [unfolded None]]
    define etl where "etl = fst (execute_sql_command e cfg
        (etl_command e (now w1 - 3600 * INCREMENTAL_WINDOW_HOURS cfg) (now w1))
        ''Process incremental query performance data'' None w1)"
    define all where "all = rs @ [etl]"
    have len: "length rs = length pipeline_steps" using C by simp
    have req: "\<forall>i<length pipeline_steps. status (all ! i) = FAILED \<longrightarrow>
                 \<not> required (pipeline_steps ! i)"
    proof (intro allI impI)
      fix i assume i: "i < length pipeline_steps" and f: "status (all ! i) = FAILED"
      from i len have "all ! i = rs ! i" by (simp add: all_def nth_append)
      with f C i show "\<not> required (pipeline_steps ! i)" by auto
    qed
    have f0: "(length (filter (\<lambda>r. status r = FAILED) all) = 0) =
              (\<not> (\<exists>r\<in>set all. status r = FAILED))"
      by (simp add: filter_empty_conv)
    have s0: "(0 < length (filter (\<lambda>r. status r = SUCCESS) all)) =
              (\<exists>r\<in>set all. status r = SUCCESS)"
      by (simp add: filter_empty_conv)
    have res: "execute_pipeline e cfg w =
      (\<lparr>summary_status =
           aggregate_status (length (filter (\<lambda>r. status r = SUCCESS) all))
             (length (filter (\<lambda>r. status r = FAILED) all)),
         summary_start_time = now w,
         summary_end_time = now (snd (execute_sql_command e cfg
            (etl_command e (now w1 - 3600 * INCREMENTAL_WINDOW_HOURS cfg) (now w1))
            ''Process incremental query performance data'' None w1)),
         total_execution_time = now (snd (execute_sql_command e cfg
            (etl_command e (now w1 - 3600 * INCREMENTAL_WINDOW_HOURS cfg) (now w1))
            ''Process incremental query performance data'' None w1)) - now w,
         steps_completed = length (filter (\<lambda>r. status r = SUCCESS) all),
         steps_failed = Some (length (filter (\<lambda>r. status r = FAILED) all)),
         steps_total = length all,
         results = all,
         summary_error = None\<rparr>,
       snd (execute_sql_command e cfg
            (etl_command e (now w1 - 3600 * INCREMENTAL_WINDOW_HOURS cfg) (now w1))
            ''Process incremental query performance data'' None w1))"
      using run None
      by (simp add: execute_pipeline_def Let_def case_prod_beta all_def etl_def)
    have agg: "(aggregate_status s f = PARTIAL_SUCCESS) = (f \<noteq> 0 \<and> 0 < s)" for s f
      by (simp add: aggregate_status_def)
    have lall: "length all = length pipeline_steps + 1" by (simp add: all_def len)
    show ?thesis
      unfolding res using req lall f0 s0
      by (simp add: Let_def agg aggregate_status_def)
  qed
qed


lemma script_succeeds_at_once:
  assumes "error_of (respond e (tick w) (ScriptFile p)) = None"
    and "0 < retries_or_default cfg mr"
  shows "status (fst (execute_sql_script e cfg p d mr w)) = SUCCESS"
  using retry_loop_first_success [of 0 e w "ScriptFile p" 0 "retries_or_default cfg mr" cfg] assms
  by (simp add: execute_sql_script_def)

lemma command_succeeds_at_once:
  assumes "error_of (respond e (tick w) (InlineSql c)) = None"
    and "0 < retries_or_default cfg mr"
  shows "status (fst (execute_sql_command e cfg c d mr w)) = SUCCESS"
  using retry_loop_first_success [of 0 e w "InlineSql c" 0 "retries_or_default cfg mr" cfg] assms
  by (simp add: execute_sql_command_def)

lemma script_fails_for_good:
  assumes "\<forall>t. error_of (respond e t (ScriptFile p)) \<noteq> None"
    and "0 < retries_or_default cfg mr"
  shows "status (fst (execute_sql_script e cfg p d mr w)) = FAILED"
proof -
  define k where "k = nat (retries_or_default cfg mr)"
  have k: "int (0 + k) = retries_or_default cfg mr" "0 < k"
    using assms(2) by (simp_all add: k_def)
  have "\<forall>j<k. error_of (respond e (tick w + j) (ScriptFile p)) \<noteq> None"
    using assms(1) by blast
  from retry_loop_all_fail [OF this k] show ?thesis
    by (simp add: execute_sql_script_def)
qed

lemma run_steps_all_succeed:
  assumes ok: "\<forall>t p. error_of (respond e t (ScriptFile p)) = None"
    and n: "0 < MAX_RETRY_ATTEMPTS cfg"
  shows "(\<forall>r\<in>set acc. status r = SUCCESS) \<Longrightarrow>
           fst (fst (run_steps e cfg steps acc w)) = None
           \<and> (\<forall>r\<in>set (snd (fst (run_steps e cfg steps acc w))). status r = SUCCESS)"
proof (induction steps arbitrary: acc w)
  case Nil
  then show ?case by simp
next
  case (Cons st steps)
  have "0 < retries_or_default cfg None" using n by (simp add: retries_or_default_def)
  with ok have s: "status (fst (execute_sql_script e cfg (script st) (step_description st)
                      None w)) = SUCCESS"
    by (simp add: script_succeeds_at_once)
  let ?x = "execute_sql_script e cfg (script st) (step_description st) None w"
  have pre: "\<forall>r\<in>set (acc @ [fst ?x]). status r = SUCCESS"
    using Cons.prems s by simp
  note IH = Cons.IH [OF pre, of "snd ?x"]
  show ?case
    using s IH by (simp add: Let_def case_prod_beta)
qed

theorem completed_pipeline_status_witness:
  "summary_error (fst (execute_pipeline (working_env 5) (fallback_config 30) initial_world)) = None
   \<and> summary_status (fst (execute_pipeline (working_env 5) (fallback_config 30) initial_world)) =
       SUCCESS
   \<and> length (results (fst (execute_pipeline (working_env 5) (fallback_config 30)
       initial_world))) = 5"
proof -
  let ?e = "working_env 5" and ?c = "fallback_config 30"
  let ?w0 = "send_notification SEV_INFO initial_world"
  let ?run = "run_steps ?e ?c pipeline_steps [] ?w0"
  have ok: "\<forall>t p. error_of (respond ?e t (ScriptFile p)) = None"
    by (simp add: working_env_def)
  have n: "0 < MAX_RETRY_ATTEMPTS ?c" by (simp add: fallback_config_def)
  have "\<forall>r\<in>set ([]::outcome list). status r = SUCCESS" by simp
  from run_steps_all_succeed [OF ok n this, of pipeline_steps ?w0]
  have none: "fst (fst ?run) = None" and good: "\<forall>r\<in>set (snd (fst ?run)). status r = SUCCESS"
    by simp_all
  have "0 < retries_or_default ?c None" using n by (simp add: retries_or_default_def)
  then have etl: "status (fst (execute_sql_command ?e ?c c d None w)) = SUCCESS" for c d w
    by (simp add: command_succeeds_at_once working_env_def)
  have err: "summary_error (fst (execute_pipeline ?e ?c initial_world)) = None"
    using none by (simp add: execute_pipeline_def Let_def case_prod_beta split: option.split)
  have res: "\<forall>r\<in>set (results (fst (execute_pipeline ?e ?c initial_world))). status r = SUCCESS"
    using none good etl
    by (simp add: execute_pipeline_def Let_def case_prod_beta split: option.split)
  then have f0: "filter (\<lambda>r. status r = FAILED)
                   (results (fst (execute_pipeline ?e ?c initial_world))) = []"
    by (simp add: filter_empty_conv)
  have len: "length pipeline_steps = 4" by (simp add: pipeline_steps_def)
  show ?thesis
    using completed_pipeline_status [where e = ?e and cfg = ?c and w = initial_world] err f0 len
    by (simp add: case_prod_beta Let_def)
qed

subsection \<open>A required step that fails\<close>

lemma pipeline_aborts_at_second_step:
  assumes s1: "execute_sql_script e cfg (script (pipeline_steps ! 0))
                 (step_description (pipeline_steps ! 0)) None
                 (send_notification SEV_INFO w) = (r1, w1)"
    and ok1: "status r1 \<noteq> FAILED"
    and s2: "execute_sql_script e cfg (script (pipeline_steps ! 1))
               (step_description (pipeline_steps ! 1)) None w1 = (r2, w2)"
    and bad2: "status r2 = FAILED"
  shows "execute_pipeline e cfg w =
           (\<lparr>summary_status = FAILED,
             summary_start_time = now w,
             summary_end_time = now (send_notification SEV_ERROR w2),
             total_execution_time = now (send_notification SEV_ERROR w2) - now w,
             steps_completed = 2,
             steps_failed = None,
             steps_total = 4,
             results = [r1, r2],
             summary_error = Some ''Required pipeline step failed: Create core Delta tables''\<rparr>,
            send_notification SEV_ERROR w2)"
  using assms
  by (simp add: execute_pipeline_def pipeline_steps_def Let_def)

text \<open>
  Claim C2, as amended. Let the first step of the list end with a status other than
  \<^verbatim>\<open>FAILED\<close> and the second step end with the status \<^verbatim>\<open>FAILED\<close>. Then
  \<^verbatim>\<open>execute_pipeline\<close> returns at once: its summary has the status \<^verbatim>\<open>FAILED\<close>, its
  results are the outcomes of these two steps, \<^verbatim>\<open>steps_total\<close> is the length of the
  step list, 4, and the world it leaves is the world after the second step with the
  error notification added, so the third and the fourth step and the incremental call
  were never submitted.
\<close>

theorem second_step_failure_aborts:
  assumes "execute_sql_script e cfg (script (pipeline_steps ! 0))
             (step_description (pipeline_steps ! 0)) None
             (send_notification SEV_INFO w) = (r1, w1)"
    and "status r1 \<noteq> FAILED"
    and "execute_sql_script e cfg (script (pipeline_steps ! 1))
           (step_description (pipeline_steps ! 1)) None w1 = (r2, w2)"
    and "status r2 = FAILED"
  shows "case execute_pipeline e cfg w of
           (summary, w') \<Rightarrow>
             summary_status summary = FAILED
             \<and> results summary = [r1, r2]
             \<and> steps_total summary = length pipeline_steps
             \<and> length pipeline_steps = 4
             \<and> w' = send_notification SEV_ERROR w2
             \<and> submitted (trace w') = submitted (trace w2)"
  using pipeline_aborts_at_second_step [OF assms]
  by (simp add: pipeline_steps_def send_notification_def submitted_append)

lemma broken_second_step:
  fixes w :: world
  defines "e \<equiv> broken_script_env ''../sql/02_core_tables.sql''"
  defines "c \<equiv> fallback_config 30"
  shows "status (fst (execute_sql_script e c (script (pipeline_steps ! 0))
                   (step_description (pipeline_steps ! 0)) None w)) = SUCCESS"
    and "status (fst (execute_sql_script e c (script (pipeline_steps ! 1))
                   (step_description (pipeline_steps ! 1)) None w)) = FAILED"
proof -
  have n: "0 < retries_or_default c None"
    by (simp add: retries_or_default_def c_def fallback_config_def)
  have "error_of (respond e (tick w) (ScriptFile (script (pipeline_steps ! 0)))) = None"
    by (simp add: e_def broken_script_env_def broken_env_def pipeline_steps_def)
  from script_succeeds_at_once [OF this n]
  show "status (fst (execute_sql_script e c (script (pipeline_steps ! 0))
                   (step_description (pipeline_steps ! 0)) None w)) = SUCCESS" .
  have "\<forall>t. error_of (respond e t (ScriptFile (script (pipeline_steps ! 1)))) \<noteq> None"
    by (simp add: e_def broken_script_env_def broken_env_def pipeline_steps_def)
  from script_fails_for_good [OF this n]
  show "status (fst (execute_sql_script e c (script (pipeline_steps ! 1))
                   (step_description (pipeline_steps ! 1)) None w)) = FAILED" .
qed

theorem second_step_failure_aborts_witness:
  "summary_status (fst (execute_pipeline (broken_script_env ''../sql/02_core_tables.sql'')
      (fallback_config 30) initial_world)) = FAILED
   \<and> length (results (fst (execute_pipeline (broken_script_env ''../sql/02_core_tables.sql'')
      (fallback_config 30) initial_world))) = 2
   \<and> steps_total (fst (execute_pipeline (broken_script_env ''../sql/02_core_tables.sql'')
      (fallback_config 30) initial_world)) = 4"
proof -
  let ?e = "broken_script_env ''../sql/02_core_tables.sql''" and ?c = "fallback_config 30"
  let ?x1 = "execute_sql_script ?e ?c (script (pipeline_steps ! 0))
               (step_description (pipeline_steps ! 0)) None
               (send_notification SEV_INFO initial_world)"
  let ?x2 = "execute_sql_script ?e ?c (script (pipeline_steps ! 1))
               (step_description (pipeline_steps ! 1)) None (snd ?x1)"
  have h1: "?x1 = (fst ?x1, snd ?x1)" and h3: "?x2 = (fst ?x2, snd ?x2)" by simp_all
  have h2: "status (fst ?x1) \<noteq> FAILED" by (simp add: broken_second_step(1))
  have h4: "status (fst ?x2) = FAILED" by (rule broken_second_step(2))
  from second_step_failure_aborts [OF h1 h2 h3 h4] show ?thesis
    by (simp add: case_prod_beta)
qed

text \<open>
  When the second script cannot be run, the summary of the early return has
  \<^verbatim>\<open>steps_completed = 2\<close> and \<^verbatim>\<open>steps_total = 4\<close>, not 1 and 2 as claim C2 has it.
\<close>

theorem abort_counts_two_of_four:
  "steps_completed (fst (execute_pipeline (broken_script_env ''../sql/02_core_tables.sql'')
      (fallback_config 30) initial_world)) = 2
   \<and> steps_total (fst (execute_pipeline (broken_script_env ''../sql/02_core_tables.sql'')
      (fallback_config 30) initial_world)) = 4
   \<and> \<not> (steps_completed (fst (execute_pipeline
            (broken_script_env ''../sql/02_core_tables.sql'')
            (fallback_config 30) initial_world)) = 1
        \<and> steps_total (fst (execute_pipeline
            (broken_script_env ''../sql/02_core_tables.sql'')
            (fallback_config 30) initial_world)) = 2)"
proof -
  let ?e = "broken_script_env ''../sql/02_core_tables.sql''" and ?c = "fallback_config 30"
  let ?x1 = "execute_sql_script ?e ?c (script (pipeline_steps ! 0))
               (step_description (pipeline_steps ! 0)) None
               (send_notification SEV_INFO initial_world)"
  let ?x2 = "execute_sql_script ?e ?c (script (pipeline_steps ! 1))
               (step_description (pipeline_steps ! 1)) None (snd ?x1)"
  have h1: "?x1 = (fst ?x1, snd ?x1)" and h3: "?x2 = (fst ?x2, snd ?x2)" by simp_all
  have h2: "status (fst ?x1) \<noteq> FAILED" by (simp add: broken_second_step(1))
  have h4: "status (fst ?x2) = FAILED" by (rule broken_second_step(2))
  from pipeline_aborts_at_second_step [OF h1 h2 h3 h4] show ?thesis
    by simp
qed

section \<open>Properties of the report\<close>

text \<open>
  Claim C1 says that a pipeline summary with status \<^verbatim>\<open>FAILED\<close> always gives a report
  with the overall status \<^verbatim>\<open>FAILED\<close>. The source tests the validation status before
  it looks for a failed pipeline: when the pipeline and the validation have both
  failed, the second branch is taken and the report is a \<^verbatim>\<open>WARNING\<close> with a
  notification of the severity \<^verbatim>\<open>WARNING\<close>.
\<close>

theorem failed_pipeline_failed_validation_is_warning:
  "generate_summary_report (summary\<lparr>summary_status := FAILED\<rparr>)
     (validation\<lparr>overall_status := FAILED\<rparr>) w =
   (\<lparr>report_pipeline_summary = summary\<lparr>summary_status := FAILED\<rparr>,
     report_validation_results = validation\<lparr>overall_status := FAILED\<rparr>,
     report_overall_status = WARNING\<rparr>,
    send_notification SEV_WARNING w)"
  by (simp add: generate_summary_report_def)

section \<open>Properties of the whole run\<close>

lemma only_submits_refl: "only_submits S w w"
  by (simp add: only_submits_def)

lemma only_submits_trans:
  "only_submits S w w1 \<Longrightarrow> only_submits S w1 w2 \<Longrightarrow> only_submits S w w2"
proof -
  assume a: "only_submits S w w1" and b: "only_submits S w1 w2"
  define xs where "xs = drop (length (trace w)) (trace w1)"
  define ys where "ys = drop (length (trace w1)) (trace w2)"
  have t1: "trace w1 = trace w @ xs"
    using a unfolding only_submits_def xs_def by (metis append_take_drop_id)
  have t2: "trace w2 = trace w1 @ ys"
    using b unfolding only_submits_def ys_def by (metis append_take_drop_id)
  have sx: "set (submitted xs) \<subseteq> S" using a by (simp add: only_submits_def xs_def)
  have sy: "set (submitted ys) \<subseteq> S" using b by (simp add: only_submits_def ys_def)
  show ?thesis
    using sx sy by (simp add: only_submits_def t1 t2 submitted_append)
qed

lemma only_submits_append:
  "set (submitted evs) \<subseteq> S \<Longrightarrow> trace w' = trace w @ evs \<Longrightarrow> only_submits S w w'"
  by (simp add: only_submits_def)

lemma perform_only_submits:
  "wk \<in> S \<Longrightarrow> only_submits S w (snd (perform e wk w))"
  by (simp add: only_submits_def perform_def Let_def)

lemma check_access_only_submits:
  "only_submits (InlineSql ` set (preflight_statements cfg)) w
     (snd (check_system_table_access e cfg w))"
proof (rule only_submits_append)
  let ?ts = "required_tables cfg"
  let ?evs = "map (\<lambda>i. Exec (InlineSql (access_query (?ts ! i)))
                        (respond e (tick w + i) (InlineSql (access_query (?ts ! i)))))
                  [0..<length ?ts]"
  show "trace (snd (check_system_table_access e cfg w)) = trace w @ ?evs"
    by (simp add: check_system_table_access_def check_tables_run)
  have "submitted ?evs = map (\<lambda>i. InlineSql (access_query (?ts ! i))) [0..<length ?ts]"
    by (rule submitted_execs)
  also have "\<dots> = map (\<lambda>tbl. InlineSql (access_query tbl)) ?ts"
    by (rule map_over_indices)
  finally show "set (submitted ?evs) \<subseteq> InlineSql ` set (preflight_statements cfg)"
    by (auto simp: preflight_statements_def)
qed

lemma check_schema_only_submits:
  "only_submits (InlineSql ` set (preflight_statements cfg)) w (snd (check_schema e cfg w))"
  by (simp add: check_schema_def perform_def Let_def only_submits_def preflight_statements_def
        split: option.split)

lemma check_resources_only_submits:
  "only_submits (InlineSql ` set (preflight_statements cfg)) w (snd (check_resources e w))"
  by (simp add: check_resources_def perform_def Let_def only_submits_def preflight_statements_def
        split: option.split)

lemma validate_prerequisites_null:
  "system_tables_null lc \<Longrightarrow> validate_prerequisites e lc w = (Inl AttributeError, w)"
  by (simp add: validate_prerequisites_def check_system_table_access_exn_def)

lemma validate_prerequisites_checked:
  assumes "\<not> system_tables_null lc"
  shows "\<exists>errors. validate_prerequisites e lc w =
           (Inr (errors = [], errors),
            snd (check_resources e (snd (check_schema e (typed lc)
                   (snd (check_system_table_access e (typed lc) w))))))
         \<and> (filter (\<lambda>r. \<not> accessible r) (fst (check_system_table_access e (typed lc) w)) \<noteq> []
              \<longrightarrow> errors \<noteq> [])"
  using assms
  by (simp add: validate_prerequisites_def check_system_table_access_exn_def Let_def
        case_prod_beta)

lemma validate_prerequisites_only_submits:
  "only_submits (InlineSql ` set (preflight_statements (typed lc))) w
     (snd (validate_prerequisites e lc w))"
proof (cases "system_tables_null lc")
  case True
  then show ?thesis by (simp add: validate_prerequisites_null only_submits_refl)
next
  case False
  let ?S = "InlineSql ` set (preflight_statements (typed lc))"
  let ?w1 = "snd (check_system_table_access e (typed lc) w)"
  let ?w2 = "snd (check_schema e (typed lc) ?w1)"
  let ?w3 = "snd (check_resources e ?w2)"
  have "only_submits ?S w ?w3"
    by (rule only_submits_trans [OF only_submits_trans [OF check_access_only_submits
          check_schema_only_submits] check_resources_only_submits])
  moreover have "snd (validate_prerequisites e lc w) = ?w3"
    using validate_prerequisites_checked [OF False, of e w] by auto
  ultimately show ?thesis by simp
qed

lemma inaccessible_table_is_an_error:
  assumes "\<not> system_tables_null lc"
    and "i < length (required_tables (typed lc))"
    and "error_of (respond e (tick w + i)
           (InlineSql (access_query (required_tables (typed lc) ! i)))) \<noteq> None"
  shows "\<exists>errors. fst (validate_prerequisites e lc w) = Inr (False, errors) \<and> errors \<noteq> []"
proof -
  let ?ts = "required_tables (typed lc)"
  let ?rs = "fst (check_system_table_access e (typed lc) w)"
  let ?r = "access_outcome (?ts ! i) (respond e (tick w + i) (InlineSql (access_query (?ts ! i))))"
  have rs: "?rs = map (\<lambda>i. access_outcome (?ts ! i)
                     (respond e (tick w + i) (InlineSql (access_query (?ts ! i)))))
                   [0..<length ?ts]"
    by (simp add: check_system_table_access_def check_tables_run)
  have "?r \<in> set ?rs" unfolding rs using assms(2) by auto
  moreover have "\<not> accessible ?r"
    using assms(3) by (auto simp: access_outcome_def split: option.split)
  ultimately have "filter (\<lambda>r. \<not> accessible r) ?rs \<noteq> []"
    by (auto simp: filter_empty_conv)
  with validate_prerequisites_checked [OF assms(1), of e w] show ?thesis by auto
qed

lemma etl_is_no_preflight_statement: "etl_command e a b \<notin> set (preflight_statements cfg)"
proof -
  have "hd (etl_command e a b) = CHR 0x0A"
    by (simp add: etl_command_def newline_def)
  moreover have "\<forall>s\<in>set (preflight_statements cfg). hd s \<noteq> CHR 0x0A"
    by (auto simp: preflight_statements_def access_query_def)
  ultimately show ?thesis by metis
qed


text \<open>The exceptions of an executor are those of \<^verbatim>\<open>time.sleep\<close>.\<close>

lemma time_sleep_exceptions:
  "time_sleep secs w = Inl ex \<Longrightarrow> ex = ValueError \<or> ex = OverflowError"
  by (auto simp: time_sleep_def split: if_splits)

lemma retry_loop_exn_exceptions:
  "fst (retry_loop_exn e delay wk n a r w) = Inl ex \<Longrightarrow> ex = ValueError \<or> ex = OverflowError"
proof (induction "nat (n - int a)" arbitrary: a r w)
  case 0
  then show ?case by (simp add: retry_loop_exn_done)
next
  case (Suc k)
  then have lt: "int a < n" by simp
  show ?case
  proof (cases "error_of (respond e (tick w) wk)")
    case None
    with Suc.prems lt show ?thesis by (simp add: retry_loop_exn_success)
  next
    case (Some msg)
    show ?thesis
    proof (cases "int a = n - 1")
      case True
      with Suc.prems Some show ?thesis by (simp add: retry_loop_exn_last_failure)
    next
      case False
      with lt have lt': "int a < n - 1" by simp
      have k: "k = nat (n - int (Suc a))" using Suc.hyps(2) by simp
      let ?w1 = "w\<lparr>tick := Suc (tick w), trace := trace w @ [Exec wk (respond e (tick w) wk)]\<rparr>"
      show ?thesis
      proof (cases "time_sleep (delay * 2 ^ a) ?w1")
        case (Inl ex')
        with Suc.prems have "ex = ex'"
          by (simp add: retry_loop_exn_retry [OF lt' Some])
        with Inl time_sleep_exceptions show ?thesis by blast
      next
        case (Inr w2)
        with Suc.prems have "fst (retry_loop_exn e delay wk n (Suc a)
                 (r\<lparr>attempt_count := a + 1, error_message := Some msg\<rparr>) w2) = Inl ex"
          by (simp add: retry_loop_exn_retry [OF lt' Some])
        from Suc.hyps(1) [OF k this] show ?thesis .
      qed
    qed
  qed
qed

lemma retry_loop_exn_returns:
  assumes "sleeps_return delay n"
  shows "\<exists>r'. fst (retry_loop_exn e delay wk n a r w) = Inr r'"
proof -
  define cfg :: config where
    "cfg = \<lparr>config_keys = [], CATALOG = [], SCHEMA = [], MAX_RETRY_ATTEMPTS = n,
            RETRY_DELAY_SECONDS = nat delay, INCREMENTAL_WINDOW_HOURS = 0,
            system_tables_required = None\<rparr>"
  have "n \<le> 1 \<or> delay = int (RETRY_DELAY_SECONDS cfg)"
    using assms by (auto simp: sleeps_return_def cfg_def)
  from retry_loop_exn_agrees [OF assms this, of e wk a r w] show ?thesis by simp
qed

lemma run_steps_exn_exceptions:
  "fst (run_steps_exn e lc steps acc w) = Inl ex \<Longrightarrow> ex = ValueError \<or> ex = OverflowError"
proof (induction steps arbitrary: acc w)
  case Nil
  then show ?case by simp
next
  case (Cons st steps)
  let ?x = "execute_sql_script_exn e lc (script st) (step_description st) None w"
  show ?case
  proof (cases "fst ?x")
    case (Inl ex')
    with Cons.prems have "ex = ex'" by (simp add: case_prod_beta)
    moreover from Inl have "ex' = ValueError \<or> ex' = OverflowError"
      unfolding execute_sql_script_exn_def Let_def by (rule retry_loop_exn_exceptions)
    ultimately show ?thesis by simp
  next
    case (Inr result)
    with Cons.prems Cons.IH show ?thesis
      by (auto simp: case_prod_beta Let_def split: if_splits)
  qed
qed

lemma run_steps_exn_returns:
  assumes "sleeps_return (retry_delay_seconds lc) (MAX_RETRY_ATTEMPTS (typed lc))"
  shows "\<exists>x. fst (run_steps_exn e lc steps acc w) = Inr x"
proof (induction steps arbitrary: acc w)
  case Nil
  show ?case by simp
next
  case (Cons st steps)
  let ?x = "execute_sql_script_exn e lc (script st) (step_description st) None w"
  have "\<exists>r. fst ?x = Inr r"
    unfolding execute_sql_script_exn_def Let_def
    using assms by (simp add: retry_loop_exn_returns retries_or_default_def)
  then obtain r where r: "fst ?x = Inr r" by blast
  show ?case
    using r Cons.IH by (simp add: case_prod_beta Let_def)
qed

lemma window_start_exceptions:
  "window_start end_t hours = Inl ex \<Longrightarrow> ex = OverflowError"
  by (simp add: window_start_def Let_def split: if_splits)

lemma window_start_returns:
  "window_start end_t hours = Inr start_t \<Longrightarrow> start_t = end_t - 3600 * hours"
  by (simp add: window_start_def Let_def split: if_splits)

lemma execute_pipeline_exn_exceptions:
  assumes "fst (execute_pipeline_exn e lc w) = Inl ex"
  shows "ex = ValueError \<or> ex = OverflowError"
proof -
  let ?run = "run_steps_exn e lc pipeline_steps [] (send_notification SEV_INFO w)"
  show ?thesis
  proof (cases "fst ?run")
    case (Inl ex')
    with assms have "ex = ex'"
      by (simp add: execute_pipeline_exn_def Let_def case_prod_beta)
    with Inl run_steps_exn_exceptions show ?thesis by blast
  next
    case (Inr x)
    obtain fs rs where x: "x = (fs, rs)" by (cases x)
    show ?thesis
    proof (cases fs)
      case (Some st)
      with assms Inr x show ?thesis
        by (simp add: execute_pipeline_exn_def Let_def case_prod_beta)
    next
      case None
      show ?thesis
      proof (cases "window_start (now (snd ?run)) (INCREMENTAL_WINDOW_HOURS (typed lc))")
        case (Inl ex')
        with assms \<open>fst ?run = Inr x\<close> x None have "ex = ex'"
          by (simp add: execute_pipeline_exn_def Let_def case_prod_beta)
        with Inl window_start_exceptions show ?thesis by blast
      next
        case (Inr start_t)
        let ?etl = "execute_sql_command_exn e lc (etl_command e start_t (now (snd ?run)))
            ''Process incremental query performance data'' None (snd ?run)"
        from assms \<open>fst ?run = Inr x\<close> x None Inr have "fst ?etl = Inl ex"
          by (simp add: execute_pipeline_exn_def Let_def case_prod_beta split: sum.splits)
        then show ?thesis
          unfolding execute_sql_command_exn_def Let_def by (rule retry_loop_exn_exceptions)
      qed
    qed
  qed
qed

lemma execute_pipeline_exn_returns:
  assumes "sleeps_return (retry_delay_seconds lc) (MAX_RETRY_ATTEMPTS (typed lc))"
    and "window_start
           (now (snd (run_steps_exn e lc pipeline_steps [] (send_notification SEV_INFO w))))
           (INCREMENTAL_WINDOW_HOURS (typed lc)) = Inr start_t"
  shows "\<exists>summary. fst (execute_pipeline_exn e lc w) = Inr summary"
proof -
  let ?run = "run_steps_exn e lc pipeline_steps [] (send_notification SEV_INFO w)"
  from run_steps_exn_returns [OF assms(1)] obtain x where x: "fst ?run = Inr x" by blast
  obtain fs rs where fr: "x = (fs, rs)" by (cases x)
  have etl: "\<exists>r. fst (execute_sql_command_exn e lc c d None w') = Inr r" for c d w'
    unfolding execute_sql_command_exn_def Let_def
    using assms(1) by (simp add: retry_loop_exn_returns retries_or_default_def)
  show ?thesis
  proof (cases fs)
    case (Some st)
    with x fr show ?thesis
      by (simp add: execute_pipeline_exn_def Let_def case_prod_beta)
  next
    case None
    let ?etl = "execute_sql_command_exn e lc (etl_command e start_t (now (snd ?run)))
          ''Process incremental query performance data'' None (snd ?run)"
    from etl obtain r where "fst ?etl = Inr r" by blast
    with x fr None assms(2) show ?thesis
      by (simp add: execute_pipeline_exn_def Let_def case_prod_beta)
  qed
qed

text \<open>
  With a delay that is the natural number of the typed record and sleeps that all
  return, the executors and the pipeline with exceptions return what the ones
  without exceptions return; for the pipeline, the start of the window is to be a
  \<^verbatim>\<open>datetime\<close> when no step has aborted it.
\<close>

lemma execute_sql_script_exn_agrees:
  assumes "sleeps_return (retry_delay_seconds lc) (retries_or_default (typed lc) max_retries)"
    and "retry_delay_seconds lc = int (RETRY_DELAY_SECONDS (typed lc))"
  shows "execute_sql_script_exn e lc script_path descr max_retries w =
           (Inr (fst (execute_sql_script e (typed lc) script_path descr max_retries w)),
            snd (execute_sql_script e (typed lc) script_path descr max_retries w))"
  unfolding execute_sql_script_exn_def execute_sql_script_def Let_def
  by (rule retry_loop_exn_agrees [OF assms(1)]) (simp add: assms(2))

lemma execute_sql_command_exn_agrees:
  assumes "sleeps_return (retry_delay_seconds lc) (retries_or_default (typed lc) max_retries)"
    and "retry_delay_seconds lc = int (RETRY_DELAY_SECONDS (typed lc))"
  shows "execute_sql_command_exn e lc sql_command descr max_retries w =
           (Inr (fst (execute_sql_command e (typed lc) sql_command descr max_retries w)),
            snd (execute_sql_command e (typed lc) sql_command descr max_retries w))"
  unfolding execute_sql_command_exn_def execute_sql_command_def Let_def
  by (rule retry_loop_exn_agrees [OF assms(1)]) (simp add: assms(2))

lemma run_steps_exn_agrees:
  assumes "sleeps_return (retry_delay_seconds lc) (MAX_RETRY_ATTEMPTS (typed lc))"
    and "retry_delay_seconds lc = int (RETRY_DELAY_SECONDS (typed lc))"
  shows "run_steps_exn e lc steps acc w =
           (Inr (fst (run_steps e (typed lc) steps acc w)),
            snd (run_steps e (typed lc) steps acc w))"
proof (induction steps arbitrary: acc w)
  case Nil
  show ?case by simp
next
  case (Cons st steps)
  have sl: "sleeps_return (retry_delay_seconds lc) (retries_or_default (typed lc) None)"
    using assms(1) by (simp add: retries_or_default_def)
  show ?case
    by (simp add: execute_sql_script_exn_agrees [OF sl assms(2)] Cons.IH Let_def
          case_prod_beta)
qed

lemma execute_pipeline_exn_agrees:
  assumes "sleeps_return (retry_delay_seconds lc) (MAX_RETRY_ATTEMPTS (typed lc))"
    and "retry_delay_seconds lc = int (RETRY_DELAY_SECONDS (typed lc))"
    and "fst (fst (run_steps e (typed lc) pipeline_steps [] (send_notification SEV_INFO w))) =
           None \<Longrightarrow>
         window_start
           (now (snd (run_steps e (typed lc) pipeline_steps [] (send_notification SEV_INFO w))))
           (INCREMENTAL_WINDOW_HOURS (typed lc)) = Inr start_t"
  shows "execute_pipeline_exn e lc w =
           (Inr (fst (execute_pipeline e (typed lc) w)), snd (execute_pipeline e (typed lc) w))"
proof -
  let ?run = "run_steps e (typed lc) pipeline_steps [] (send_notification SEV_INFO w)"
  have sl: "sleeps_return (retry_delay_seconds lc) (retries_or_default (typed lc) None)"
    using assms(1) by (simp add: retries_or_default_def)
  show ?thesis
  proof (cases "fst (fst ?run)")
    case (Some st)
    then show ?thesis
      by (simp add: execute_pipeline_exn_def execute_pipeline_def
            run_steps_exn_agrees [OF assms(1,2)] Let_def case_prod_beta)
  next
    case None
    from assms(3) [OF None] have ws: "window_start (now (snd ?run))
        (INCREMENTAL_WINDOW_HOURS (typed lc)) = Inr start_t" .
    from window_start_returns [OF ws]
    have st: "start_t = now (snd ?run) - 3600 * INCREMENTAL_WINDOW_HOURS (typed lc)" .
    show ?thesis
      using None
      by (simp add: execute_pipeline_exn_def execute_pipeline_def
            run_steps_exn_agrees [OF assms(1,2)] ws st [symmetric]
            execute_sql_command_exn_agrees [OF sl assms(2)] Let_def case_prod_beta)
  qed
qed

text \<open>
  Claim C7, as amended. When \<^verbatim>\<open>validate_prerequisites\<close> reports an error, the
  notebook sends one error notification and raises the exception with the errors
  joined into its message. No script was opened and no incremental call was made
  before: every unit of work submitted up to then is a statement of the four checks,
  so no outcome of a pipeline step exists. An inaccessible required table is such an
  error. This is the only \<^verbatim>\<open>raise\<close> statement: an exception of the class
  \<^verbatim>\<open>Exception\<close> ends the run in this case only. It is not the only exception that
  can end the run. An exception of the validation itself ends it; and after a
  validation without errors the run returns its results provided that
  \<^verbatim>\<open>execute_pipeline\<close> returns, the \<^verbatim>\<open>version_info\<close> section is not null and the
  display of the metrics returns.
\<close>

theorem failed_prerequisites_stop_the_run:
  "case validate_prerequisites e lc w of
     (Inl ex, w1) \<Rightarrow> run_notebook e lc w = (Inl ex, w1)
   | (Inr (validation_success, validation_errors), w1) \<Rightarrow>
       (case run_notebook e lc w of
          (outcome, w') \<Rightarrow>
            (validation_errors \<noteq> [] \<longrightarrow>
               outcome = Inl (Exception (''Prerequisites validation failed: '' @
                                         join ''; '' validation_errors))
               \<and> w' = send_notification SEV_ERROR w1
               \<and> only_submits (InlineSql ` set (preflight_statements (typed lc))) w w'
               \<and> (\<forall>p. ScriptFile p \<notin> set (submitted (drop (length (trace w)) (trace w'))))
               \<and> (\<forall>a b. InlineSql (etl_command e a b) \<notin>
                          set (submitted (drop (length (trace w)) (trace w')))))
            \<and> (\<forall>msg. outcome = Inl (Exception msg) \<longrightarrow> validation_errors \<noteq> [])
            \<and> ((\<exists>summary. fst (execute_pipeline_exn e lc w1) = Inr summary)
                 \<and> \<not> version_info_null lc
                 \<and> (\<forall>t. error_of (respond e t ShowMetrics) = None)
               \<longrightarrow> ((\<exists>ex. outcome = Inl ex) \<longleftrightarrow> validation_errors \<noteq> []))
            \<and> ((\<exists>i<length (required_tables (typed lc)).
                    error_of (respond e (tick w + i)
                      (InlineSql (access_query (required_tables (typed lc) ! i)))) \<noteq> None)
                 \<longrightarrow> validation_errors \<noteq> []))"
proof (cases "system_tables_null lc")
  case True
  then show ?thesis
    by (simp add: validate_prerequisites_null run_notebook_def)
next
  case False
  let ?S = "InlineSql ` set (preflight_statements (typed lc))"
  from validate_prerequisites_checked [OF False, of e w]
  obtain errors w1 where v: "validate_prerequisites e lc w = (Inr (errors = [], errors), w1)"
    by blast
  let ?w' = "send_notification SEV_ERROR w1"
  have fail: "run_notebook e lc w =
                (Inl (Exception (''Prerequisites validation failed: '' @ join ''; '' errors)), ?w')"
    if "errors \<noteq> []"
    using that by (simp add: run_notebook_def v)
  have sub: "only_submits ?S w ?w'"
  proof (rule only_submits_trans)
    show "only_submits ?S w w1"
      using validate_prerequisites_only_submits [of lc w e] by (simp add: v)
    show "only_submits ?S w1 ?w'"
      by (simp add: only_submits_def send_notification_def)
  qed
  then have within: "set (submitted (drop (length (trace w)) (trace ?w'))) \<subseteq> ?S"
    by (simp add: only_submits_def)
  have no_script: "ScriptFile p \<notin> set (submitted (drop (length (trace w)) (trace ?w')))" for p
    using within by auto
  have no_etl: "InlineSql (etl_command e a b) \<notin>
                  set (submitted (drop (length (trace w)) (trace ?w')))" for a b
    using within etl_is_no_preflight_statement [of e a b "typed lc"] by auto
  have after: "fst (run_notebook e lc w) =
      (case execute_pipeline_exn e lc w1 of
         (Inl ex, w2) \<Rightarrow> Inl ex
       | (Inr summary, w2) \<Rightarrow>
           (let (validation, w3) = validate_pipeline_results e lc w2
            in if version_info_null lc then Inl AttributeError
               else
                 (let (summary_report, w4) = generate_summary_report summary validation w3;
                      (shown, w5) = perform e ShowMetrics w4
                  in case error_of shown of
                       Some msg \<Rightarrow> Inl (DisplayError msg)
                     | None \<Rightarrow>
                         Inr \<lparr>run_pipeline_summary = summary,
                              run_validation_results = validation,
                              run_summary_report = summary_report,
                              run_optimization_results =
                                fst (perform_table_optimization e (typed lc) w5)\<rparr>)))"
    if "errors = []"
    using that
    by (simp add: run_notebook_def v Let_def case_prod_beta split: sum.split option.split)
  have no_exception: "fst (run_notebook e lc w) \<noteq> Inl (Exception msg)" if "errors = []" for msg
  proof
    assume a: "fst (run_notebook e lc w) = Inl (Exception msg)"
    show False
    proof (cases "fst (execute_pipeline_exn e lc w1)")
      case (Inl ex)
      with a after [OF that] have "ex = Exception msg"
        by (simp add: case_prod_beta)
      with Inl execute_pipeline_exn_exceptions show False by blast
    next
      case (Inr summary)
      with a after [OF that] show False
        by (simp add: case_prod_beta Let_def split: option.splits if_splits)
    qed
  qed
  have returns: "\<exists>x. fst (run_notebook e lc w) = Inr x"
    if "errors = []"
      and pl: "\<exists>summary. fst (execute_pipeline_exn e lc w1) = Inr summary"
      and vi: "\<not> version_info_null lc"
      and shown: "\<forall>t. error_of (respond e t ShowMetrics) = None"
  proof -
    from pl obtain summary
      where "fst (execute_pipeline_exn e lc w1) = Inr summary" by blast
    with after [OF that(1)] vi shown show ?thesis
      by (simp add: case_prod_beta Let_def perform_def)
  qed
  have only: "(\<exists>ex. fst (run_notebook e lc w) = Inl ex) \<longleftrightarrow> errors \<noteq> []"
    if "\<exists>summary. fst (execute_pipeline_exn e lc w1) = Inr summary"
      and "\<not> version_info_null lc"
      and "\<forall>t. error_of (respond e t ShowMetrics) = None"
  proof (cases "errors = []")
    case True
    from returns [OF True that] show ?thesis using True by auto
  next
    case False
    with fail show ?thesis by simp
  qed
  have table: "errors \<noteq> []"
    if "\<exists>i<length (required_tables (typed lc)).
          error_of (respond e (tick w + i)
            (InlineSql (access_query (required_tables (typed lc) ! i)))) \<noteq> None"
  proof -
    from that obtain i where "i < length (required_tables (typed lc))"
      "error_of (respond e (tick w + i)
         (InlineSql (access_query (required_tables (typed lc) ! i)))) \<noteq> None"
      by blast
    from inaccessible_table_is_an_error [OF False this] show ?thesis by (simp add: v)
  qed
  have exc: "\<forall>msg. fst (run_notebook e lc w) = Inl (Exception msg) \<longrightarrow> errors \<noteq> []"
    using no_exception by blast
  show ?thesis
    unfolding v
    using fail sub no_script no_etl only table exc
    by (auto simp: case_prod_beta simp del: not_None_eq)
qed

lemma one_table_broken:
  "\<exists>w1. validate_prerequisites (broken_env [InlineSql (access_query ''system.billing.usage'')])
     (fallback_loaded 30) initial_world =
   (Inr (False, [''Cannot access system.billing.usage: boom'']), w1)"
  by (simp add: validate_prerequisites_def check_system_table_access_exn_def
        check_system_table_access_def required_tables_def
        default_required_tables_def fallback_loaded_def fallback_config_def perform_def
        broken_env_def access_query_def access_outcome_def check_schema_def
        check_resources_def required_config_keys_def str_of_def Let_def initial_world_def)

theorem failed_prerequisites_stop_the_run_witness:
  "fst (run_notebook (broken_env [InlineSql (access_query ''system.billing.usage'')])
     (fallback_loaded 30) initial_world) =
   Inl (Exception ''Prerequisites validation failed: Cannot access system.billing.usage: boom'')"
proof -
  let ?e = "broken_env [InlineSql (access_query ''system.billing.usage'')]"
  from one_table_broken obtain w1 where
    v: "validate_prerequisites ?e (fallback_loaded 30) initial_world =
          (Inr (False, [''Cannot access system.billing.usage: boom'']), w1)"
    by blast
  from failed_prerequisites_stop_the_run [where e = ?e and lc = "fallback_loaded 30"
         and w = initial_world, unfolded v]
  show ?thesis by (simp add: case_prod_beta)
qed

lemma failed_sleep_leaves_the_loop:
  assumes "1 < n" and "error_of (respond e (tick w) wk) \<noteq> None"
    and "delay < 0" and "- sleep_limit \<le> delay"
  shows "fst (retry_loop_exn e delay wk n 0 r w) = Inl ValueError"
proof -
  from assms(2) obtain msg where msg: "error_of (respond e (tick w) wk) = Some msg" by blast
  have lt: "int 0 < n - 1" using assms(1) by simp
  show ?thesis
    using assms(3,4)
    by (simp add: retry_loop_exn_retry [OF lt msg] time_sleep_def)
qed

lemma first_step_broken_prerequisites:
  "\<exists>w1. validate_prerequisites first_step_broken_env (fallback_loaded d) initial_world =
     (Inr (True, []), w1)"
  by (simp add: validate_prerequisites_def check_system_table_access_exn_def
        check_system_table_access_def required_tables_def
        default_required_tables_def fallback_loaded_def fallback_config_def perform_def
        broken_env_def first_step_broken_env_def
        access_query_def access_outcome_def check_schema_def check_resources_def
        required_config_keys_def str_of_def Let_def initial_world_def case_prod_beta)

text \<open>
  With a delay of \<open>- 5\<close> seconds and a first script that cannot be run, the
  prerequisites hold and the run still ends with an exception, the \<^verbatim>\<open>ValueError\<close> of
  \<^verbatim>\<open>time.sleep\<close> raised out of \<^verbatim>\<open>execute_pipeline\<close>: the pre-flight abort is
  not the only place where a failure is raised, as claim C7 has it.
\<close>

theorem negative_delay_ends_the_run:
  "fst (validate_prerequisites first_step_broken_env (fallback_loaded (- 5)) initial_world) =
     Inr (True, [])
   \<and> fst (run_notebook first_step_broken_env (fallback_loaded (- 5)) initial_world) =
       Inl ValueError"
proof -
  let ?e = first_step_broken_env and ?lc = "fallback_loaded (- 5)"
  from first_step_broken_prerequisites obtain w1 where
    v: "validate_prerequisites ?e ?lc initial_world = (Inr (True, []), w1)"
    by blast
  have "fst (execute_sql_script_exn ?e ?lc ''../sql/01_schema_setup.sql'' d None w) =
          Inl ValueError" for d w
    unfolding execute_sql_script_exn_def Let_def
    by (rule failed_sleep_leaves_the_loop)
       (simp_all add: retries_or_default_def fallback_loaded_def fallback_config_def
          first_step_broken_env_def broken_env_def sleep_limit_def)
  then have "fst (execute_pipeline_exn ?e ?lc w) = Inl ValueError" for w
    by (simp add: execute_pipeline_exn_def pipeline_steps_def Let_def case_prod_beta
          split: sum.split)
  then show ?thesis
    by (simp add: run_notebook_def v case_prod_beta split: sum.split)
qed

text \<open>
  The pair of records of claim C1 arises in a run: when the first script cannot be
  run, the pipeline fails, the health check of a table that was never created fails,
  and the report of the run is a \<^verbatim>\<open>WARNING\<close>.
\<close>

lemma first_step_broken_pipeline:
  "\<exists>summary. fst (execute_pipeline_exn first_step_broken_env (fallback_loaded 30) w) =
       Inr summary \<and> summary_status summary = FAILED"
proof -
  let ?e = first_step_broken_env and ?lc = "fallback_loaded 30"
  have t: "typed ?lc = fallback_config 30" by (simp add: fallback_loaded_def)
  have n: "0 < retries_or_default (fallback_config 30) None"
    by (simp add: retries_or_default_def fallback_config_def)
  have sl: "sleeps_return (retry_delay_seconds ?lc)
              (retries_or_default (fallback_config 30) None)"
    by (simp add: sleeps_return_def fallback_loaded_def fallback_config_def
          retries_or_default_def sleep_limit_def)
  have d: "retries_or_default (fallback_config 30) None \<le> 1 \<or>
           retry_delay_seconds ?lc = int (RETRY_DELAY_SECONDS (fallback_config 30))"
    by (simp add: fallback_loaded_def fallback_config_def)
  have "\<forall>t. error_of (respond ?e t (ScriptFile ''../sql/01_schema_setup.sql'')) \<noteq> None"
    by (simp add: first_step_broken_env_def broken_env_def)
  from script_fails_for_good [OF this n]
  have old: "status (fst (execute_sql_script ?e (fallback_config 30)
                  ''../sql/01_schema_setup.sql'' d None w')) = FAILED" for d w'
    by simp
  have "\<exists>r. fst (execute_sql_script_exn ?e ?lc ''../sql/01_schema_setup.sql'' d None w') = Inr r
            \<and> status r = FAILED" for d w'
    unfolding execute_sql_script_exn_def Let_def t
    using old [of d w']
    by (simp add: retry_loop_exn_agrees [OF sl d] execute_sql_script_def)
  then obtain r where "fst (execute_sql_script_exn ?e ?lc ''../sql/01_schema_setup.sql''
      ''Setup schema and permissions'' None (send_notification SEV_INFO w)) = Inr r"
      "status r = FAILED"
    by blast
  then show ?thesis
    by (simp add: execute_pipeline_exn_def pipeline_steps_def Let_def case_prod_beta)
qed

lemma first_step_broken_validation:
  "overall_status (fst (validate_pipeline_results first_step_broken_env (fallback_loaded 30) w)) =
     FAILED"
proof -
  have "health_status (fst (check_table_health first_step_broken_env (fallback_config 30)
          ''query_performance_raw'' None w')) = FAILED" for w'
    by (simp add: check_table_health_def perform_def Let_def first_step_broken_env_def
          broken_env_def fallback_config_def health_failed_def)
  then show ?thesis
    by (simp add: validate_pipeline_results_def key_tables_def Let_def case_prod_beta
          fallback_loaded_def)
qed

lemma failed_run_reported_as_warning:
  "\<exists>res. fst (run_notebook first_step_broken_env (fallback_loaded 30) initial_world) = Inr res
     \<and> summary_status (run_pipeline_summary res) = FAILED
     \<and> overall_status (run_validation_results res) = FAILED
     \<and> report_overall_status (run_summary_report res) = WARNING"
proof -
  let ?e = first_step_broken_env and ?lc = "fallback_loaded 30"
  from first_step_broken_prerequisites obtain w1 where
    v: "validate_prerequisites ?e ?lc initial_world = (Inr (True, []), w1)"
    by blast
  from first_step_broken_pipeline obtain summary where
    p: "fst (execute_pipeline_exn ?e ?lc w1) = Inr summary" "summary_status summary = FAILED"
    by blast
  have shown: "error_of (respond ?e t ShowMetrics) = None" for t
    by (simp add: first_step_broken_env_def broken_env_def)
  show ?thesis
    using p first_step_broken_validation shown
    by (simp add: run_notebook_def v Let_def case_prod_beta generate_summary_report_def
          perform_def fallback_loaded_def [of 30, THEN arg_cong [of _ _ version_info_null]]
          split: sum.split)
qed

end
